theory Spec2Isabelle
  imports Main "HOL-Library.Char_ord" "HOL-Library.List_Lexorder" "HOL-Library.Multiset"
begin

section \<open>Python values, strings and exceptions\<close>

text \<open>
  Strings are byte lists. The order on them (\<open>Char_ord\<close>, \<open>List_Lexorder\<close>) is the
  lexicographic order on bytes, which on UTF-8 text is Python's code point order.
\<close>

definition digit_char :: "nat \<Rightarrow> char" where
  "digit_char d = ''0123456789'' ! d"

text \<open>\<open>str(n)\<close> of a non-negative Python int: its decimal digits.\<close>

fun str_nat :: "nat \<Rightarrow> string" where
  "str_nat n = (if n < 10 then [digit_char n] else str_nat (n div 10) @ [digit_char (n mod 10)])"

declare str_nat.simps [simp del]

definition str_int :: "int \<Rightarrow> string" where
  "str_int i = (if i < 0 then CHR ''-'' # str_nat (nat (- i)) else str_nat (nat i))"

text \<open>\<open>sep.join(parts)\<close>.\<close>

fun join :: "string \<Rightarrow> string list \<Rightarrow> string" where
  "join sep [] = []"
| "join sep [x] = x"
| "join sep (x # y # ys) = x @ sep @ join sep (y # ys)"

text \<open>
  What a call can raise. \<open>except Exception\<close> catches the first kind only;
  \<open>KeyboardInterrupt\<close>, \<open>SystemExit\<close> and \<open>GeneratorExit\<close> derive from
  \<open>BaseException\<close> directly and pass through such a handler.
\<close>

datatype py_exception = Exception string | BaseException string

text \<open>The values that reach cache keys: strings, ints and \<open>None\<close>.\<close>

datatype pyval = PStr string | PInt int | PNone

fun py_str :: "pyval \<Rightarrow> string" where
  "py_str (PStr s) = s"
| "py_str (PInt i) = str_int i"
| "py_str PNone = ''None''"

section \<open>utils/cache.py: CacheManager\<close>

text \<open>
  The Django cache object is a library object. It is a parameter here: a record of its
  methods over a backend state \<open>'b\<close>, each returning a value or the exception it raised,
  and the state it left.
\<close>

type_synonym ('b, 'a) call = "'b \<Rightarrow> (py_exception + 'a) \<times> 'b"

record ('b, 'v) cache_backend =
  be_get :: "string \<Rightarrow> 'v \<Rightarrow> ('b, 'v) call"
  be_set :: "string \<Rightarrow> 'v \<Rightarrow> int \<Rightarrow> ('b, unit) call"
  be_delete :: "string \<Rightarrow> ('b, unit) call"
  has_delete_pattern :: bool
  be_delete_pattern :: "string \<Rightarrow> ('b, int) call"
  be_keys :: "string \<Rightarrow> ('b, string list) call"
  be_delete_many :: "string list \<Rightarrow> ('b, unit) call"

definition ret :: "'a \<Rightarrow> 's \<Rightarrow> ('e + 'a) \<times> 's" where
  "ret x b = (Inr x, b)"

definition raise :: "'e \<Rightarrow> 's \<Rightarrow> ('e + 'a) \<times> 's" where
  "raise e b = (Inl e, b)"

definition bind ::
  "('s \<Rightarrow> ('e + 'a) \<times> 's) \<Rightarrow> ('a \<Rightarrow> 's \<Rightarrow> ('e + 'c) \<times> 's) \<Rightarrow> 's \<Rightarrow> ('e + 'c) \<times> 's" where
  "bind m f b = (case m b of (Inl e, b') \<Rightarrow> (Inl e, b') | (Inr x, b') \<Rightarrow> f x b')"

text \<open>\<open>try: body  except Exception as e: log; return dflt\<close>.\<close>

definition try_except :: "('b, 'a) call \<Rightarrow> 'a \<Rightarrow> ('b, 'a) call" where
  "try_except body dflt b =
     (case body b of
        (Inl (Exception e), b') \<Rightarrow> (Inr dflt, b')
      | (Inl (BaseException e), b') \<Rightarrow> (Inl (BaseException e), b')
      | (Inr x, b') \<Rightarrow> (Inr x, b'))"

definition TIMEOUTS :: "(string \<times> int) list" where
  "TIMEOUTS = [(''short'', 300), (''medium'', 1800), (''long'', 3600),
               (''very_long'', 21600), (''daily'', 86400)]"

definition PREFIXES :: "(string \<times> string) list" where
  "PREFIXES = [(''product'', ''product''), (''category'', ''category''), (''user'', ''user''),
               (''order'', ''order''), (''cart'', ''cart''), (''stats'', ''stats''),
               (''search'', ''search''), (''api'', ''api'')]"

text \<open>\<open>d.get(k, default)\<close> and \<open>d[k]\<close> on a dict given by its items.\<close>

definition dict_get :: "('k \<times> 'a) list \<Rightarrow> 'k \<Rightarrow> 'a \<Rightarrow> 'a" where
  "dict_get d k dflt = (case map_of d k of None \<Rightarrow> dflt | Some x \<Rightarrow> x)"

definition dict_item :: "('k \<times> 'a) list \<Rightarrow> 'k \<Rightarrow> ('b, 'a) call" where
  "dict_item d k = (case map_of d k of None \<Rightarrow> raise (Exception ''KeyError'') | Some x \<Rightarrow> ret x)"

text \<open>
  A positional argument of \<open>generate_key\<close>: a model instance (its class name and
  primary key) or any other value.
\<close>

datatype key_arg = ModelInstance string pyval | Value pyval

fun arg_part :: "key_arg \<Rightarrow> string" where
  "arg_part (ModelInstance cls pk) = cls @ ''_'' @ py_str pk"
| "arg_part (Value v) = py_str v"

definition kwarg_part :: "string \<times> pyval \<Rightarrow> string" where
  "kwarg_part kv = fst kv @ ''_'' @ py_str (snd kv)"

text \<open>
  \<open>CacheManager.generate_key(prefix, *args, **kwargs)\<close>. The keyword arguments are a
  dict, given by its items in insertion order (so with distinct names);
  \<open>sorted(kwargs.items())\<close> orders them by name. Each loop appends to \<open>key_parts\<close>.
\<close>

definition generate_key :: "string \<Rightarrow> key_arg list \<Rightarrow> (string \<times> pyval) list \<Rightarrow> string" where
  "generate_key prefix args kwargs =
     (let key_parts = [dict_get PREFIXES prefix prefix];
          key_parts = foldl (\<lambda>parts arg. parts @ [arg_part arg]) key_parts args;
          key_parts = foldl (\<lambda>parts kv. parts @ [kwarg_part kv]) key_parts (sort_key fst kwargs)
      in join '':'' key_parts)"

text \<open>The \<open>timeout\<close> argument of \<open>CacheManager.set\<close>: a tier name or seconds.\<close>

datatype timeout = Tier string | Seconds int

definition cm_get :: "('b, 'v) cache_backend \<Rightarrow> string \<Rightarrow> 'v \<Rightarrow> ('b, 'v) call" where
  "cm_get cache key dflt = try_except (be_get cache key dflt) dflt"

definition cm_set :: "('b, 'v) cache_backend \<Rightarrow> string \<Rightarrow> 'v \<Rightarrow> timeout \<Rightarrow> ('b, bool) call" where
  "cm_set cache key v t =
     try_except
       (bind (case t of
                Tier name \<Rightarrow> bind (dict_item TIMEOUTS ''medium'')
                                 (\<lambda>medium. ret (dict_get TIMEOUTS name medium))
              | Seconds n \<Rightarrow> ret n)
          (\<lambda>secs. bind (be_set cache key v secs) (\<lambda>_. ret True)))
       False"

definition cm_delete :: "('b, 'v) cache_backend \<Rightarrow> string \<Rightarrow> ('b, bool) call" where
  "cm_delete cache key = try_except (bind (be_delete cache key) (\<lambda>_. ret True)) False"

text \<open>\<open>s.lower()\<close> on ASCII text, and \<open>needle in s\<close>.\<close>

definition lower_char :: "char \<Rightarrow> char" where
  "lower_char c = (if CHR ''A'' \<le> c \<and> c \<le> CHR ''Z'' then char_of (of_char c + (32::nat)) else c)"

fun is_prefix :: "string \<Rightarrow> string \<Rightarrow> bool" where
  "is_prefix [] ys = True"
| "is_prefix (x # xs) [] = False"
| "is_prefix (x # xs) (y # ys) = (x = y \<and> is_prefix xs ys)"

fun contains :: "string \<Rightarrow> string \<Rightarrow> bool" where
  "contains needle [] = (needle = [])"
| "contains needle (y # ys) = (is_prefix needle (y # ys) \<or> contains needle ys)"

text \<open>\<open>settings.CACHES\<close>: a dict of dicts.\<close>

type_synonym settings = "(string \<times> (string \<times> string) list) list"

definition delete_pattern_body ::
  "settings \<Rightarrow> ('b, 'v) cache_backend \<Rightarrow> string \<Rightarrow> ('b, int) call" where
  "delete_pattern_body CACHES cache pattern =
     bind (dict_item CACHES ''default'') (\<lambda>dflt.
     bind (dict_item dflt ''BACKEND'') (\<lambda>cache_backend.
       if contains ''redis'' (map lower_char cache_backend) then
         if has_delete_pattern cache then be_delete_pattern cache pattern
         else bind (be_keys cache pattern) (\<lambda>keys.
                if keys = [] then ret 0
                else bind (be_delete_many cache keys) (\<lambda>_. ret (int (length keys))))
       else ret 0))"

definition cm_delete_pattern ::
  "settings \<Rightarrow> ('b, 'v) cache_backend \<Rightarrow> string \<Rightarrow> ('b, int) call" where
  "cm_delete_pattern CACHES cache pattern =
     try_except (delete_pattern_body CACHES cache pattern) 0"

text \<open>A Redis cache whose server cannot be reached: every method raises.\<close>

definition unreachable :: "(unit, pyval) cache_backend" where
  "unreachable =
     \<lparr>be_get = (\<lambda>k d. raise (Exception ''ConnectionError'')),
      be_set = (\<lambda>k v t. raise (Exception ''ConnectionError'')),
      be_delete = (\<lambda>k. raise (Exception ''ConnectionError'')),
      has_delete_pattern = True,
      be_delete_pattern = (\<lambda>p. raise (Exception ''ConnectionError'')),
      be_keys = (\<lambda>p. raise (Exception ''ConnectionError'')),
      be_delete_many = (\<lambda>ks. raise (Exception ''ConnectionError''))\<rparr>"

text \<open>A cache that keeps each value with the timeout it was given, in memory.\<close>

definition locmem :: "((string \<times> pyval \<times> int) list, pyval) cache_backend" where
  "locmem =
     \<lparr>be_get = (\<lambda>k d b. (Inr (case map_of b k of None \<Rightarrow> d | Some vt \<Rightarrow> fst vt), b)),
      be_set = (\<lambda>k v t b. (Inr (), (k, v, t) # filter (\<lambda>e. fst e \<noteq> k) b)),
      be_delete = (\<lambda>k b. (Inr (), filter (\<lambda>e. fst e \<noteq> k) b)),
      has_delete_pattern = False,
      be_delete_pattern = (\<lambda>p. raise (Exception ''AttributeError'')),
      be_keys = (\<lambda>p. raise (Exception ''AttributeError'')),
      be_delete_many = (\<lambda>ks b. (Inr (), filter (\<lambda>e. fst e \<notin> set ks) b))\<rparr>"

definition redis_settings :: settings where
  "redis_settings = [(''default'', [(''BACKEND'', ''django_redis.cache.RedisCache'')])]"

section \<open>The tables: products/models.py and orders/models.py\<close>

text \<open>
  A \<open>DecimalField\<close> with two decimal places is held as an integer number of hundredths,
  so sums and products are exact, as \<open>Decimal\<close> arithmetic is on these values.
  \<open>PositiveIntegerField\<close> columns (\<open>stock\<close>, \<open>quantity\<close>) are Python ints here: the
  model does not lean on the database's check that they stay non-negative.
\<close>

record product =
  p_name :: string
  p_sku :: string
  price :: int
  stock :: int
  is_active :: bool

text \<open>
  A cart belongs to one user (\<open>OneToOneField\<close>), so a cart is named by its user's id.
  A primary key is \<open>None\<close> on an instance that was never saved.
\<close>

record cart_item =
  ci_id :: "nat option"
  ci_cart :: nat
  ci_product :: nat
  ci_quantity :: int

text \<open>What \<open>CreateOrderSerializer\<close> validates; \<open>None\<close> is a key that is absent.\<close>

record shipping =
  shipping_address_line_1 :: "string option"
  shipping_address_line_2 :: "string option"
  shipping_city :: "string option"
  shipping_state :: "string option"
  shipping_postal_code :: "string option"
  shipping_country :: "string option"
  order_notes :: "string option"

text \<open>
  An order. The shipping name, email and phone that checkout copies from the user, the
  billing fields and the timestamps are read by nothing here and are left out.
\<close>

record order =
  o_id :: "nat option"
  o_user :: nat
  order_number :: string
  status :: string
  subtotal :: int
  total_price :: int
  o_shipping :: shipping

record order_item =
  oi_order :: nat
  oi_product :: nat
  oi_quantity :: int
  product_name :: string
  product_sku :: string
  product_price :: int

record order_status_history =
  h_order :: nat
  h_old_status :: string
  h_new_status :: string
  h_notes :: string

text \<open>
  The messages of \<open>order_post_save\<close>. The admin message carries the user's email and
  name, read from the user's row; the user's id stands for them.
\<close>

datatype notification =
  OrderNotification string "nat option" nat string string int string
| NewOrderAdmin "nat option" nat int

text \<open>
  \<open>get_channel_layer()\<close>: \<open>None\<close> when no layer is configured; a configured layer
  either delivers or raises on \<open>group_send\<close>.
\<close>

datatype channel_layer = Delivering | Failing

record state =
  products :: "nat \<rightharpoonup> product"
  carts :: "nat set"
  cart_items :: "cart_item list"
  next_cart_item_id :: nat
  orders :: "order list"
  next_order_id :: nat
  order_items :: "order_item list"
  status_history :: "order_status_history list"
  layer :: "channel_layer option"
  sent :: "(string \<times> notification) list"

section \<open>Errors and responses\<close>

datatype detail =
  CartEmpty
| ProductUnavailable string
| OnlyUnitsOf int string
| OnlyUnits int
| OutOfStock
| ProductNotFound
| Required string
| Blank string
| TooLong string nat
| MinValue string int
| InvalidChoice string
| CannotChangeStatus string string
| OrderNotFound nat
| ErrorUpdating nat
| BulkRequired
| InvalidStatus

datatype error =
  ValidationError "detail list"
| ValueError
| TypeError
| KeyError string
| Http404
| DoesNotExist
| MultipleObjectsReturned
| DatabaseError

datatype body =
  CartItemBody cart_item
| OrderBody order
| ErrorBody detail
| BulkBody "nat list" "detail list"
| NoBody

datatype response = Response nat body

type_synonym 'a db_call = "state \<Rightarrow> (error + 'a) \<times> state"

text \<open>
  The status a client sees: a response's own, 400 for a \<open>ValidationError\<close> and 404 for
  \<open>Http404\<close> (the framework's exception handler), 500 for any other exception.
\<close>

fun http_status :: "error + response \<Rightarrow> nat" where
  "http_status (Inr (Response code b)) = code"
| "http_status (Inl (ValidationError ds)) = 400"
| "http_status (Inl Http404) = 404"
| "http_status (Inl e) = 500"

text \<open>
  \<open>transaction.atomic\<close>: an exception that leaves the block undoes the block's writes.
  Messages already handed to the channel layer are not part of the transaction.
\<close>

definition atomic :: "'a db_call \<Rightarrow> 'a db_call" where
  "atomic block s =
     (case block s of
        (Inl e, s') \<Rightarrow> (Inl e, s\<lparr>sent := sent s'\<rparr>)
      | (Inr x, s') \<Rightarrow> (Inr x, s'))"

section \<open>orders/signals.py: order_post_save\<close>

definition STATUS_CHOICES :: "(string \<times> string) list" where
  "STATUS_CHOICES = [(''pending'', ''Pending''), (''processing'', ''Processing''),
                     (''shipped'', ''Shipped''), (''delivered'', ''Delivered''),
                     (''cancelled'', ''Cancelled''), (''refunded'', ''Refunded'')]"

definition get_status_display :: "order \<Rightarrow> string" where
  "get_status_display instance = dict_get STATUS_CHOICES (status instance) (status instance)"

definition str_id :: "nat option \<Rightarrow> string" where
  "str_id i = (case i of None \<Rightarrow> ''None'' | Some n \<Rightarrow> str_nat n)"

text \<open>\<open>instance.order_number or f"#{instance.id}"\<close>.\<close>

definition number_or_id :: "order \<Rightarrow> string" where
  "number_or_id instance =
     (if order_number instance = [] then ''#'' @ str_id (o_id instance)
      else order_number instance)"

definition user_group :: "nat \<Rightarrow> string" where
  "user_group uid = ''user_'' @ str_nat uid"

definition order_notification :: "order \<Rightarrow> bool \<Rightarrow> notification" where
  "order_notification instance created =
     (if created then
        OrderNotification ''order_created'' (o_id instance) (o_user instance) (status instance)
          (get_status_display instance) (total_price instance)
          (''New order '' @ number_or_id instance @ '' has been placed'')
      else
        OrderNotification ''order_updated'' (o_id instance) (o_user instance) (status instance)
          (get_status_display instance) (total_price instance)
          (''Order '' @ number_or_id instance @ '' status updated to ''
             @ get_status_display instance))"

text \<open>
  The handler catches every \<open>Exception\<close>, so it returns in any case; what it leaves
  behind are the messages sent. The first \<open>group_send\<close> of a failing layer raises, which
  ends the \<open>try\<close> block. The cache keys it deletes afterwards are not part of this state.
\<close>

definition order_post_save :: "order \<Rightarrow> bool \<Rightarrow> state \<Rightarrow> state" where
  "order_post_save instance created s =
     (case layer s of
        None \<Rightarrow> s
      | Some Failing \<Rightarrow> s
      | Some Delivering \<Rightarrow>
          (let s = s\<lparr>sent := sent s @
                      [(user_group (o_user instance), order_notification instance created)]\<rparr>
           in if created
              then s\<lparr>sent := sent s @
                     [(''admins'', NewOrderAdmin (o_id instance) (o_user instance)
                                     (total_price instance))]\<rparr>
              else s))"

section \<open>orders/models.py: Order.save and CartItem.save\<close>

datatype order_field = F_status | F_updated_at | F_order_number

text \<open>The row after an \<open>UPDATE\<close> of the given columns (all of them for \<open>None\<close>).\<close>

definition write_fields :: "order_field list option \<Rightarrow> order \<Rightarrow> order \<Rightarrow> order" where
  "write_fields update_fields instance row =
     (case update_fields of
        None \<Rightarrow> instance
      | Some fs \<Rightarrow>
          (let row = (if F_status \<in> set fs then row\<lparr>status := status instance\<rparr> else row)
           in if F_order_number \<in> set fs then row\<lparr>order_number := order_number instance\<rparr>
              else row))"

text \<open>
  \<open>models.Model.save\<close> on an order, \<open>o_id\<close> being the primary key: an instance without
  one is inserted under the next id of the sequence; one whose row exists is updated; one
  whose row is missing is inserted under its own key, unless \<open>update_fields\<close> is given.
  \<open>post_save\<close> fires after the write.
\<close>

definition model_save :: "order \<Rightarrow> order_field list option \<Rightarrow> order db_call" where
  "model_save instance update_fields s =
     (case o_id instance of
        None \<Rightarrow>
          (case update_fields of
             Some fs \<Rightarrow> (Inl ValueError, s)
           | None \<Rightarrow>
               (let instance = instance\<lparr>o_id := Some (next_order_id s)\<rparr>;
                    s = s\<lparr>orders := orders s @ [instance],
                          next_order_id := Suc (next_order_id s)\<rparr>
                in (Inr instance, order_post_save instance True s)))
      | Some i \<Rightarrow>
          (case find (\<lambda>row. o_id row = Some i) (orders s) of
             Some found \<Rightarrow>
               (let s = s\<lparr>orders := map (\<lambda>row. if o_id row = Some i
                                                then write_fields update_fields instance row
                                                else row) (orders s)\<rparr>
                in (Inr instance, order_post_save instance False s))
           | None \<Rightarrow>
               (case update_fields of
                  Some fs \<Rightarrow> (Inl DatabaseError, s)
                | None \<Rightarrow>
                    (let s = s\<lparr>orders := orders s @ [instance],
                               next_order_id := max (next_order_id s) (Suc i)\<rparr>
                     in (Inr instance, order_post_save instance True s)))))"

text \<open>\<open>f"{n:06d}"\<close> for a non-negative \<open>n\<close>.\<close>

definition format_06d :: "nat \<Rightarrow> string" where
  "format_06d n = replicate (6 - length (str_nat n)) CHR ''0'' @ str_nat n"

text \<open>The number that a string of decimal digits denotes (read left to right).\<close>

definition decimal :: "string \<Rightarrow> nat" where
  "decimal ds = foldl (\<lambda>acc c. 10 * acc + (of_char c - 48)) 0 ds"

definition order_save :: "order \<Rightarrow> order_field list option \<Rightarrow> order db_call" where
  "order_save self update_fields =
     (if order_number self = [] then
        bind (model_save self update_fields) (\<lambda>self.
          if order_number self = [] then
            (case o_id self of
               None \<Rightarrow> raise TypeError
             | Some i \<Rightarrow>
                 model_save (self\<lparr>order_number := ''ORD-'' @ format_06d i\<rparr>)
                   (Some [F_order_number]))
          else ret self)
      else model_save self update_fields)"

text \<open>\<open>cart_item.product\<close> and the like: following a foreign key.\<close>

definition get_product :: "nat \<Rightarrow> product db_call" where
  "get_product pid s =
     (case products s pid of None \<Rightarrow> (Inl DoesNotExist, s) | Some p \<Rightarrow> (Inr p, s))"

text \<open>
  \<open>CartItem.save\<close>: the stock check, then \<open>models.Model.save\<close> as for an order
  (insert without a primary key, update of the row that has it, insert when it is missing).
\<close>

definition cart_item_save :: "cart_item \<Rightarrow> cart_item db_call" where
  "cart_item_save self =
     bind (get_product (ci_product self)) (\<lambda>product.
       if ci_quantity self > stock product then raise ValueError
       else (\<lambda>s.
         case ci_id self of
           None \<Rightarrow>
             (let self = self\<lparr>ci_id := Some (next_cart_item_id s)\<rparr>
              in (Inr self, s\<lparr>cart_items := cart_items s @ [self],
                               next_cart_item_id := Suc (next_cart_item_id s)\<rparr>))
         | Some i \<Rightarrow>
             (case find (\<lambda>row. ci_id row = Some i) (cart_items s) of
                Some found \<Rightarrow>
                  (Inr self, s\<lparr>cart_items := map (\<lambda>row. if ci_id row = Some i then self
                                                        else row) (cart_items s)\<rparr>)
              | None \<Rightarrow>
                  (Inr self, s\<lparr>cart_items := cart_items s @ [self],
                                next_cart_item_id := max (next_cart_item_id s) (Suc i)\<rparr>))))"

text \<open>\<open>cart.items.all()\<close>, in the table's order.\<close>

definition items_of :: "nat \<Rightarrow> state \<Rightarrow> cart_item list" where
  "items_of cart s = filter (\<lambda>item. ci_cart item = cart) (cart_items s)"

text \<open>\<open>CartItem.subtotal\<close> and \<open>Cart.total_price\<close>.\<close>

definition item_subtotal :: "cart_item \<Rightarrow> int db_call" where
  "item_subtotal item =
     bind (get_product (ci_product item)) (\<lambda>product. ret (price product * ci_quantity item))"

fun sum_subtotals :: "cart_item list \<Rightarrow> int db_call" where
  "sum_subtotals [] = ret 0"
| "sum_subtotals (item # items) =
     bind (item_subtotal item) (\<lambda>x. bind (sum_subtotals items) (\<lambda>total. ret (x + total)))"

definition cart_total_price :: "nat \<Rightarrow> int db_call" where
  "cart_total_price cart s = sum_subtotals (items_of cart s) s"

text \<open>\<open>OrderItem.subtotal\<close>.\<close>

definition order_item_subtotal :: "order_item \<Rightarrow> int" where
  "order_item_subtotal item = product_price item * oi_quantity item"

text \<open>
  \<open>OrderItem.save\<close> fills the snapshot fields that are empty (or zero) from
  \<open>self.product\<close>, the instance the item was built with.
\<close>

definition order_item_save :: "order_item \<Rightarrow> product \<Rightarrow> unit db_call" where
  "order_item_save self product s =
     (let self = (if product_name self = [] then self\<lparr>product_name := p_name product\<rparr>
                  else self);
          self = (if product_price self = 0 then self\<lparr>product_price := price product\<rparr>
                  else self);
          self = (if product_sku self = [] then self\<lparr>product_sku := p_sku product\<rparr>
                  else self)
      in (Inr (), s\<lparr>order_items := order_items s @ [self]\<rparr>))"

section \<open>orders/serializers.py\<close>

text \<open>\<open>str.strip()\<close> on ASCII text.\<close>

definition is_space :: "char \<Rightarrow> bool" where
  "is_space c = ((of_char c :: nat) \<in> {9, 10, 11, 12, 13, 28, 29, 30, 31, 32})"

definition strip :: "string \<Rightarrow> string" where
  "strip v = rev (dropWhile is_space (rev (dropWhile is_space v)))"

text \<open>
  A \<open>serializers.CharField\<close> on one key of the request: the errors it reports and the
  value it validates to (\<open>None\<close> when the key is skipped).
\<close>

definition char_field ::
  "string \<Rightarrow> nat option \<Rightarrow> bool \<Rightarrow> bool \<Rightarrow> string option \<Rightarrow> detail list \<times> string option" where
  "char_field name max_length required allow_blank data =
     (case data of
        None \<Rightarrow> (if required then ([Required name], None) else ([], None))
      | Some v \<Rightarrow>
          (let v = strip v in
           if v = [] then (if allow_blank then ([], Some []) else ([Blank name], None))
           else (case max_length of
                   None \<Rightarrow> ([], Some v)
                 | Some m \<Rightarrow> if length v > m then ([TooLong name m], None) else ([], Some v))))"

text \<open>The declared fields of \<open>CreateOrderSerializer\<close>; the errors of all fields are reported together.\<close>

definition create_order_fields :: "shipping \<Rightarrow> shipping db_call" where
  "create_order_fields data =
     (let f1 = char_field ''shipping_address_line_1'' (Some 255) True False
                 (shipping_address_line_1 data);
          f2 = char_field ''shipping_address_line_2'' (Some 255) False True
                 (shipping_address_line_2 data);
          f3 = char_field ''shipping_city'' (Some 100) True False (shipping_city data);
          f4 = char_field ''shipping_state'' (Some 100) True False (shipping_state data);
          f5 = char_field ''shipping_postal_code'' (Some 20) True False
                 (shipping_postal_code data);
          f6 = char_field ''shipping_country'' (Some 100) True False (shipping_country data);
          f7 = char_field ''notes'' None False True (order_notes data);
          errors = fst f1 @ fst f2 @ fst f3 @ fst f4 @ fst f5 @ fst f6 @ fst f7
      in if errors = [] then
           ret \<lparr>shipping_address_line_1 = snd f1, shipping_address_line_2 = snd f2,
                shipping_city = snd f3, shipping_state = snd f4,
                shipping_postal_code = snd f5, shipping_country = snd f6, order_notes = snd f7\<rparr>
         else raise (ValidationError errors))"

text \<open>\<open>CreateOrderSerializer.validate\<close>: the loop over the cart's items.\<close>

fun validate_items :: "cart_item list \<Rightarrow> unit db_call" where
  "validate_items [] = ret ()"
| "validate_items (item # items) =
     bind (get_product (ci_product item)) (\<lambda>product.
       if \<not> is_active product
       then raise (ValidationError [ProductUnavailable (p_name product)])
       else if ci_quantity item > stock product
       then raise (ValidationError [OnlyUnitsOf (stock product) (p_name product)])
       else validate_items items)"

definition create_order_validate :: "nat \<Rightarrow> unit db_call" where
  "create_order_validate user s =
     (if user \<notin> carts s \<or> items_of user s = []
      then (Inl (ValidationError [CartEmpty]), s)
      else validate_items (items_of user s) s)"

text \<open>\<open>CreateOrderSerializer.create\<close>: the loop that writes the order's items.\<close>

fun create_order_items :: "nat \<Rightarrow> cart_item list \<Rightarrow> unit db_call" where
  "create_order_items order [] = ret ()"
| "create_order_items order (cart_item # rest) =
     bind (get_product (ci_product cart_item)) (\<lambda>product.
     bind (order_item_save
             \<lparr>oi_order = order, oi_product = ci_product cart_item,
              oi_quantity = ci_quantity cart_item, product_name = p_name product,
              product_sku = p_sku product, product_price = price product\<rparr> product) (\<lambda>_.
     bind (\<lambda>s. (Inr (), s\<lparr>products := (products s)(ci_product cart_item \<mapsto>
                          product\<lparr>stock := stock product - ci_quantity cart_item\<rparr>)\<rparr>)) (\<lambda>_.
       create_order_items order rest)))"

definition history_create :: "order_status_history \<Rightarrow> unit db_call" where
  "history_create row s = (Inr (), s\<lparr>status_history := status_history s @ [row]\<rparr>)"

definition create_order_create :: "nat \<Rightarrow> shipping \<Rightarrow> order db_call" where
  "create_order_create user validated_data =
     atomic
       (bind (\<lambda>s. if user \<in> carts s then (Inr user, s) else (Inl DoesNotExist, s)) (\<lambda>cart.
        bind (cart_total_price cart) (\<lambda>cart_total.
        bind (order_save \<lparr>o_id = None, o_user = user, order_number = [], status = ''pending'',
                          subtotal = cart_total, total_price = cart_total,
                          o_shipping = validated_data\<rparr> None) (\<lambda>order.
        case o_id order of
          None \<Rightarrow> raise ValueError
        | Some order_id \<Rightarrow>
            bind (\<lambda>s. create_order_items order_id (items_of cart s) s) (\<lambda>_.
            bind (history_create \<lparr>h_order = order_id, h_old_status = [],
                                  h_new_status = ''pending'',
                                  h_notes = ''Order created successfully''\<rparr>) (\<lambda>_.
            bind (\<lambda>s. (Inr (), s\<lparr>cart_items := filter (\<lambda>item. ci_cart item \<noteq> cart)
                                                     (cart_items s)\<rparr>)) (\<lambda>_.
              ret order)))))))"






section \<open>orders/views.py\<close>

text \<open>\<open>CreateOrderView.post\<close> for an authenticated user.\<close>

definition create_order_post :: "nat \<Rightarrow> shipping \<Rightarrow> response db_call" where
  "create_order_post user data =
     bind (create_order_fields data) (\<lambda>validated_data.
     bind (create_order_validate user) (\<lambda>_.
     bind (create_order_create user validated_data) (\<lambda>order.
       ret (Response 201 (OrderBody order)))))"

record add_request =
  a_product_id :: "nat option"
  a_quantity :: "int option"

text \<open>
  \<open>AddToCartSerializer\<close>: the two fields with \<open>validate_product_id\<close>, their errors
  reported together, then \<open>validate\<close>.
\<close>

definition add_to_cart_valid :: "add_request \<Rightarrow> (nat \<times> int) db_call" where
  "add_to_cart_valid data s =
     (let e1 = (case a_product_id data of
                  None \<Rightarrow> [Required ''product_id'']
                | Some pid \<Rightarrow>
                    (case products s pid of
                       None \<Rightarrow> [ProductNotFound]
                     | Some product \<Rightarrow>
                         if is_active product
                         then (if stock product \<le> 0 then [OutOfStock] else [])
                         else [ProductNotFound]));
          e2 = (case a_quantity data of
                  None \<Rightarrow> []
                | Some q \<Rightarrow> if q < 1 then [MinValue ''quantity'' 1] else []);
          quantity = (case a_quantity data of None \<Rightarrow> 1 | Some q \<Rightarrow> q)
      in case a_product_id data of
           None \<Rightarrow> (Inl (ValidationError (e1 @ e2)), s)
         | Some pid \<Rightarrow>
             if e1 @ e2 = [] then
               (case products s pid of
                  None \<Rightarrow> (Inr (pid, quantity), s)
                | Some product \<Rightarrow>
                    if quantity > stock product
                    then (Inl (ValidationError [OnlyUnits (stock product)]), s)
                    else (Inr (pid, quantity), s))
             else (Inl (ValidationError (e1 @ e2)), s))"

definition cart_get_or_create :: "nat \<Rightarrow> nat db_call" where
  "cart_get_or_create user s = (Inr user, s\<lparr>carts := insert user (carts s)\<rparr>)"

definition cart_item_get_or_create :: "nat \<Rightarrow> nat \<Rightarrow> int \<Rightarrow> (cart_item \<times> bool) db_call" where
  "cart_item_get_or_create cart product_id quantity s =
     (case filter (\<lambda>item. ci_cart item = cart \<and> ci_product item = product_id) (cart_items s) of
        [] \<Rightarrow>
          bind (cart_item_save \<lparr>ci_id = None, ci_cart = cart, ci_product = product_id,
                                ci_quantity = quantity\<rparr>)
            (\<lambda>item. ret (item, True)) s
      | [item] \<Rightarrow> (Inr (item, False), s)
      | item # others \<Rightarrow> (Inl MultipleObjectsReturned, s))"

definition add_to_cart_post :: "nat \<Rightarrow> add_request \<Rightarrow> response db_call" where
  "add_to_cart_post user data =
     atomic
       (bind (add_to_cart_valid data) (\<lambda>(product_id, quantity).
        bind (cart_get_or_create user) (\<lambda>cart.
        bind (cart_item_get_or_create cart product_id quantity) (\<lambda>(cart_item, item_created).
          if \<not> item_created then
            (let new_quantity = ci_quantity cart_item + quantity in
             bind (get_product product_id) (\<lambda>product.
               if new_quantity > stock product
               then ret (Response 400 (ErrorBody (OnlyUnits (stock product))))
               else bind (cart_item_save (cart_item\<lparr>ci_quantity := new_quantity\<rparr>))
                      (\<lambda>cart_item. ret (Response 201 (CartItemBody cart_item)))))
          else ret (Response 201 (CartItemBody cart_item))))))"

text \<open>
  \<open>CartItemView.patch\<close>: \<open>get_object\<close>, the serializer (\<open>partial=True\<close>, so an absent
  quantity passes validation), then \<open>validated_data['quantity']\<close> and \<open>save\<close>.
\<close>

definition cart_item_patch :: "nat \<Rightarrow> nat \<Rightarrow> int option \<Rightarrow> response db_call" where
  "cart_item_patch user item_id quantity =
     bind (\<lambda>s. case find (\<lambda>item. ci_id item = Some item_id \<and> ci_cart item = user)
                      (cart_items s) of
                None \<Rightarrow> (Inl Http404, s)
              | Some item \<Rightarrow> (Inr item, s)) (\<lambda>cart_item.
     bind (case quantity of
             None \<Rightarrow> ret ()
           | Some q \<Rightarrow>
               if q < 1 then raise (ValidationError [MinValue ''quantity'' 1])
               else bind (get_product (ci_product cart_item)) (\<lambda>product.
                      if q > stock product
                      then raise (ValidationError [OnlyUnits (stock product)])
                      else ret ())) (\<lambda>_.
     case quantity of
       None \<Rightarrow> raise (KeyError ''quantity'')
     | Some q \<Rightarrow>
         bind (cart_item_save (cart_item\<lparr>ci_quantity := q\<rparr>)) (\<lambda>cart_item.
           ret (Response 200 (CartItemBody cart_item)))))"





section \<open>What the database keeps true\<close>

text \<open>
  \<open>CartItem.Meta.unique_together = ('cart', 'product')\<close>: no two rows of the cart item
  table share cart and product.
\<close>

definition cart_unique :: "state \<Rightarrow> bool" where
  "cart_unique s = distinct (map (\<lambda>item. (ci_cart item, ci_product item)) (cart_items s))"

text \<open>The primary key of the cart item table: every row has one, below the sequence, and no two rows share it.\<close>

definition cart_item_ids :: "state \<Rightarrow> bool" where
  "cart_item_ids s =
     (distinct (map ci_id (cart_items s)) \<and>
      (\<forall>item \<in> set (cart_items s). \<exists>i < next_cart_item_id s. ci_id item = Some i))"

text \<open>The foreign key \<open>CartItem.product\<close>, for the items of one cart.\<close>

definition products_exist :: "nat \<Rightarrow> state \<Rightarrow> bool" where
  "products_exist cart s = (\<forall>item \<in> set (items_of cart s). products s (ci_product item) \<noteq> None)"


definition stock_nonneg :: "state \<Rightarrow> bool" where
  "stock_nonneg s = (\<forall>pid p. products s pid = Some p \<longrightarrow> 0 \<le> stock p)"

text \<open>The quantity of a product in a list of cart items.\<close>

definition quantity_of :: "nat \<Rightarrow> cart_item list \<Rightarrow> int" where
  "quantity_of pid items = sum_list (map ci_quantity (filter (\<lambda>item. ci_product item = pid) items))"

section \<open>Sequences of cart and checkout requests\<close>

datatype request =
  AddToCart nat add_request
| PatchCartItem nat nat "int option"
| CreateOrder nat shipping

text \<open>The state a request leaves, and that of a sequence of requests handled one after the other.\<close>

fun handle :: "request \<Rightarrow> state \<Rightarrow> state" where
  "handle (AddToCart user data) s = snd (add_to_cart_post user data s)"
| "handle (PatchCartItem user item_id quantity) s = snd (cart_item_patch user item_id quantity s)"
| "handle (CreateOrder user data) s = snd (create_order_post user data s)"

definition run :: "request list \<Rightarrow> state \<Rightarrow> state" where
  "run requests s = foldl (\<lambda>s r. handle r s) s requests"

text \<open>
  An order item is the snapshot of a cart item in a state: the cart item's product and
  quantity, with the name, SKU and price that product has in that state.
\<close>

definition snapshots :: "state \<Rightarrow> nat \<Rightarrow> cart_item \<Rightarrow> order_item \<Rightarrow> bool" where
  "snapshots s order item oi =
     (\<exists>p. products s (ci_product item) = Some p \<and>
          oi = \<lparr>oi_order = order, oi_product = ci_product item,
                oi_quantity = ci_quantity item, product_name = p_name p,
                product_sku = p_sku p, product_price = price p\<rparr>)"

text \<open>The items of a cart pass \<open>CreateOrderSerializer.validate\<close>'s checks.\<close>

definition purchasable :: "nat \<Rightarrow> state \<Rightarrow> bool" where
  "purchasable cart s =
     (\<forall>item \<in> set (items_of cart s).
        \<exists>p. products s (ci_product item) = Some p \<and> is_active p \<and> ci_quantity item \<le> stock p)"

section \<open>A small shop\<close>

text \<open>
  Two products, the cart of user 7 with both of them, a cancelled and a pending order of
  that user, and a channel layer that delivers.
\<close>

definition address :: shipping where
  "address =
     \<lparr>shipping_address_line_1 = Some ''1 Main St'', shipping_address_line_2 = None,
      shipping_city = Some ''Pune'', shipping_state = Some ''MH'',
      shipping_postal_code = Some ''411001'', shipping_country = Some ''India'',
      order_notes = None\<rparr>"

definition widget :: product where
  "widget = \<lparr>p_name = ''Widget'', p_sku = ''WID-1'', price = 250, stock = 5, is_active = True\<rparr>"

definition gadget :: product where
  "gadget = \<lparr>p_name = ''Gadget'', p_sku = ''GAD-1'', price = 1000, stock = 2, is_active = True\<rparr>"

definition old_order :: "nat \<Rightarrow> string \<Rightarrow> string \<Rightarrow> order" where
  "old_order i number st =
     \<lparr>o_id = Some i, o_user = 7, order_number = number, status = st, subtotal = 500,
      total_price = 500, o_shipping = address\<rparr>"

definition shop :: state where
  "shop =
     \<lparr>products = [1 \<mapsto> widget, 2 \<mapsto> gadget],
      carts = {7},
      cart_items = [\<lparr>ci_id = Some 1, ci_cart = 7, ci_product = 1, ci_quantity = 2\<rparr>,
                    \<lparr>ci_id = Some 2, ci_cart = 7, ci_product = 2, ci_quantity = 1\<rparr>],
      next_cart_item_id = 3,
      orders = [old_order 1 ''ORD-000001'' ''cancelled'', old_order 2 ''ORD-000002'' ''pending''],
      next_order_id = 3,
      order_items = [],
      status_history = [],
      layer = Some Delivering,
      sent = []\<rparr>"

text \<open>An order instance that was never saved and has no number yet.\<close>

definition fresh_order :: order where
  "fresh_order =
     \<lparr>o_id = None, o_user = 7, order_number = [], status = ''pending'', subtotal = 1500,
      total_price = 1500, o_shipping = address\<rparr>"


section \<open>Properties of the cache layer\<close>

lemma try_except_never_Exception: "fst (try_except body dflt b) \<noteq> Inl (Exception e)"
  by (simp add: try_except_def split: prod.splits sum.splits py_exception.splits)

lemma try_except_on_Exception:
  "fst (body b) = Inl (Exception e) \<Longrightarrow> fst (try_except body dflt b) = Inr dflt"
  by (cases "body b") (simp add: try_except_def)

lemma foldl_append_parts: "foldl (\<lambda>parts x. parts @ [f x]) acc xs = acc @ map f xs"
  by (induction xs arbitrary: acc) simp_all

lemma prefix_lookup: "dict_get PREFIXES p p = p"
  by (auto simp: dict_get_def PREFIXES_def split: option.splits if_splits)

lemma generate_key_parts:
  "generate_key prefix args kwargs =
     join '':'' (prefix # map arg_part args @ map kwarg_part (sort_key fst kwargs))"
  by (simp add: generate_key_def Let_def foldl_append_parts prefix_lookup)

lemma timeouts_medium: "dict_item TIMEOUTS ''medium'' = ret 1800"
  by (simp add: dict_item_def TIMEOUTS_def)

lemma bind_ret: "bind (ret x) f = f x"
  by (rule ext) (simp add: bind_def ret_def)

lemma cm_set_tier:
  "cm_set cache key v (Tier name) = cm_set cache key v (Seconds (dict_get TIMEOUTS name 1800))"
  by (simp add: cm_set_def timeouts_medium bind_ret)

lemma cm_set_seconds:
  "cm_set cache key v (Seconds n) b =
     (case be_set cache key v n b of
        (Inl (Exception e), b') \<Rightarrow> (Inr False, b')
      | (Inl (BaseException e), b') \<Rightarrow> (Inl (BaseException e), b')
      | (Inr u, b') \<Rightarrow> (Inr True, b'))"
  by (simp add: cm_set_def bind_ret try_except_def bind_def ret_def
      split: prod.splits sum.splits py_exception.splits)

lemma filter_key_distinct:
  "distinct (map f xs) \<Longrightarrow> k \<in> set xs \<Longrightarrow> filter (\<lambda>x. f k = f x) xs = [k]"
proof (induction xs)
  case Nil
  then show ?case by simp
next
  case (Cons x xs)
  show ?case
  proof (cases "k = x")
    case True
    have "filter (\<lambda>y. f x = f y) xs = []"
      using Cons.prems(1) by (auto simp: filter_empty_conv)
    with True show ?thesis by simp
  next
    case False
    with Cons.prems have ks: "k \<in> set xs" by simp
    have "f x \<notin> f ` set xs" using Cons.prems(1) by simp
    with ks have "f k \<noteq> f x" by (metis imageI)
    with ks Cons show ?thesis by simp
  qed
qed

lemma sort_key_items:
  assumes "distinct (map fst kw)" "distinct (map fst kw')" "set kw = set kw'"
  shows "sort_key fst kw = sort_key fst kw'"
proof (rule properties_for_sort_key)
  have d: "distinct kw" "distinct kw'" using assms(1,2) by (auto simp: distinct_map)
  show "mset (sort_key fst kw') = mset kw"
    using d assms(3) by (simp add: set_eq_iff_mset_eq_distinct)
  show "sorted (map fst (sort_key fst kw'))" by simp
  fix k assume "k \<in> set (sort_key fst kw')"
  then have k: "k \<in> set kw'" "k \<in> set kw" using assms(3) by simp_all
  have "filter (\<lambda>x. fst k = fst x) (sort_key fst kw') = sort_key fst (filter (\<lambda>x. fst k = fst x) kw')"
    by (simp add: filter_sort)
  also have "\<dots> = [k]" using filter_key_distinct [OF assms(2) k(1)] by simp
  also have "\<dots> = filter (\<lambda>x. fst k = fst x) kw" using filter_key_distinct [OF assms(1) k(2)] by simp
  finally show "filter (\<lambda>x. fst k = fst x) (sort_key fst kw') = filter (\<lambda>x. fst k = fst x) kw" .
qed

text \<open>
  C7. \<open>CacheManager.set\<close> with a tier name passes that tier's seconds to the cache
  (short 300, medium 1800, long 3600, very_long 21600, daily 86400), and 1800 for a name
  that is not a tier; \<open>generate_key\<close> is the prefix, the positional parts and the
  keyword parts in the order of their names, joined by a colon, so two keyword dicts with
  the same items give the same key whatever their insertion order.
\<close>

theorem cache_set_tiers_and_generate_key:
  "cm_set cache key v (Tier ''short'') = cm_set cache key v (Seconds 300)
   \<and> cm_set cache key v (Tier ''medium'') = cm_set cache key v (Seconds 1800)
   \<and> cm_set cache key v (Tier ''long'') = cm_set cache key v (Seconds 3600)
   \<and> cm_set cache key v (Tier ''very_long'') = cm_set cache key v (Seconds 21600)
   \<and> cm_set cache key v (Tier ''daily'') = cm_set cache key v (Seconds 86400)
   \<and> (map_of TIMEOUTS name = None \<longrightarrow>
        cm_set cache key v (Tier name) = cm_set cache key v (Seconds 1800))
   \<and> cm_set cache key v (Seconds n) b =
       (case be_set cache key v n b of
          (Inl (Exception e), b') \<Rightarrow> (Inr False, b')
        | (Inl (BaseException e), b') \<Rightarrow> (Inl (BaseException e), b')
        | (Inr u, b') \<Rightarrow> (Inr True, b'))
   \<and> generate_key prefix args kwargs =
       join '':'' (prefix # map arg_part args @ map kwarg_part (sort_key fst kwargs))
   \<and> (distinct (map fst kw) \<and> distinct (map fst kw') \<and> set kw = set kw' \<longrightarrow>
        generate_key prefix args kw = generate_key prefix args kw')"
proof -
  have tier: "\<And>name. cm_set cache key v (Tier name) =
      cm_set cache key v (Seconds (dict_get TIMEOUTS name 1800))"
    by (rule cm_set_tier)
  have "dict_get TIMEOUTS ''short'' 1800 = 300" "dict_get TIMEOUTS ''medium'' 1800 = 1800"
    "dict_get TIMEOUTS ''long'' 1800 = 3600" "dict_get TIMEOUTS ''very_long'' 1800 = 21600"
    "dict_get TIMEOUTS ''daily'' 1800 = 86400"
    by (simp_all add: dict_get_def TIMEOUTS_def)
  moreover have "map_of TIMEOUTS name = None \<longrightarrow> dict_get TIMEOUTS name 1800 = 1800"
    by (simp add: dict_get_def)
  moreover have "distinct (map fst kw) \<and> distinct (map fst kw') \<and> set kw = set kw' \<longrightarrow>
        generate_key prefix args kw = generate_key prefix args kw'"
    using sort_key_items [of kw kw'] by (auto simp: generate_key_parts)
  ultimately show ?thesis
    using cm_set_seconds [of cache key v n b] generate_key_parts [of prefix args kwargs]
    by (simp add: tier)
qed

text \<open>C7 at a concrete cache: an unknown tier stores with 1800 seconds, and a key.\<close>

theorem cache_set_tiers_and_generate_key_witness:
  "map_of TIMEOUTS ''hourly'' = None
   \<and> cm_set locmem ''k'' (PInt 1) (Tier ''hourly'') [] = (Inr True, [(''k'', PInt 1, 1800)])
   \<and> cm_set locmem ''k'' (PInt 1) (Tier ''daily'') [] = (Inr True, [(''k'', PInt 1, 86400)])
   \<and> distinct (map fst [(''page'', PInt 2), (''cat'', PStr ''toys'')])
   \<and> distinct (map fst [(''cat'', PStr ''toys''), (''page'', PInt 2)])
   \<and> set [(''page'', PInt 2), (''cat'', PStr ''toys'')] = set [(''cat'', PStr ''toys''), (''page'', PInt 2)]
   \<and> generate_key ''order'' [Value (PStr ''detail''), Value (PInt 7)] [(''page'', PInt 2), (''cat'', PStr ''toys'')]
       = generate_key ''order'' [Value (PStr ''detail''), Value (PInt 7)] [(''cat'', PStr ''toys''), (''page'', PInt 2)]
   \<and> generate_key ''order'' [Value (PStr ''detail''), Value (PInt 7)] [(''page'', PInt 2), (''cat'', PStr ''toys'')]
       = ''order:detail:7:cat_toys:page_2''"
proof -
  have k: "generate_key ''order'' [Value (PStr ''detail''), Value (PInt 7)] [(''page'', PInt 2), (''cat'', PStr ''toys'')]
       = ''order:detail:7:cat_toys:page_2''"
    by code_simp
  have s: "cm_set locmem ''k'' (PInt 1) (Seconds 1800) [] = (Inr True, [(''k'', PInt 1, 1800)])"
     "cm_set locmem ''k'' (PInt 1) (Seconds 86400) [] = (Inr True, [(''k'', PInt 1, 86400)])"
    by (simp_all add: cm_set_seconds locmem_def)
  have n: "map_of TIMEOUTS ''hourly'' = None" by (simp add: TIMEOUTS_def)
  have p: "set [(''page'', PInt 2), (''cat'', PStr ''toys'')] = set [(''cat'', PStr ''toys''), (''page'', PInt 2)]"
    by auto
  note t = cache_set_tiers_and_generate_key [of locmem "''k''" "PInt 1" "''hourly''" 0 "[]"
        "''order''" "[Value (PStr ''detail''), Value (PInt 7)]" "[(''page'', PInt 2), (''cat'', PStr ''toys'')]"
        "[(''page'', PInt 2), (''cat'', PStr ''toys'')]" "[(''cat'', PStr ''toys''), (''page'', PInt 2)]"]
  from t n have h: "cm_set locmem ''k'' (PInt 1) (Tier ''hourly'') = cm_set locmem ''k'' (PInt 1) (Seconds 1800)"
    by blast
  from t have d: "cm_set locmem ''k'' (PInt 1) (Tier ''daily'') = cm_set locmem ''k'' (PInt 1) (Seconds 86400)"
    by blast
  have dk: "distinct (map fst [(''page'', PInt 2), (''cat'', PStr ''toys'')])"
    "distinct (map fst [(''cat'', PStr ''toys''), (''page'', PInt 2)])"
    by simp_all
  from t dk p have g: "generate_key ''order'' [Value (PStr ''detail''), Value (PInt 7)] [(''page'', PInt 2), (''cat'', PStr ''toys'')]
       = generate_key ''order'' [Value (PStr ''detail''), Value (PInt 7)] [(''cat'', PStr ''toys''), (''page'', PInt 2)]"
    by blast
  show ?thesis
    unfolding h d using g k s n p dk by simp
qed

text \<open>
  C10. \<open>get\<close>, \<open>set\<close>, \<open>delete\<close> and \<open>delete_pattern\<close> of
  \<open>CacheManager\<close> never end in an \<open>Exception\<close>: when the cache raises one,
  \<open>get\<close> returns the default it was given, \<open>set\<close> and \<open>delete\<close> return
  \<open>False\<close>, and \<open>delete_pattern\<close> returns 0.
\<close>

theorem cache_manager_swallows_backend_exceptions:
  "(fst (be_get cache key dflt b) = Inl (Exception e) \<longrightarrow>
      fst (cm_get cache key dflt b) = Inr dflt)
   \<and> (fst (be_set cache key v n b) = Inl (Exception e) \<longrightarrow>
      fst (cm_set cache key v (Seconds n) b) = Inr False)
   \<and> (fst (be_set cache key v (dict_get TIMEOUTS name 1800) b) = Inl (Exception e) \<longrightarrow>
      fst (cm_set cache key v (Tier name) b) = Inr False)
   \<and> (fst (be_delete cache key b) = Inl (Exception e) \<longrightarrow>
      fst (cm_delete cache key b) = Inr False)
   \<and> (fst (delete_pattern_body CACHES cache pattern b) = Inl (Exception e) \<longrightarrow>
      fst (cm_delete_pattern CACHES cache pattern b) = Inr 0)
   \<and> fst (cm_get cache key dflt b) \<noteq> Inl (Exception e')
   \<and> fst (cm_set cache key v t b) \<noteq> Inl (Exception e')
   \<and> fst (cm_delete cache key b) \<noteq> Inl (Exception e')
   \<and> fst (cm_delete_pattern CACHES cache pattern b) \<noteq> Inl (Exception e')"
proof -
  have set_fail: "fst (cm_set cache key v (Seconds m) b) = Inr False"
    if "fst (be_set cache key v m b) = Inl (Exception e)" for m
    using that by (cases "be_set cache key v m b") (simp add: cm_set_seconds)
  have tier_fail: "fst (cm_set cache key v (Tier name) b) = Inr False"
    if "fst (be_set cache key v (dict_get TIMEOUTS name 1800) b) = Inl (Exception e)"
    using that set_fail by (simp add: cm_set_tier)
  have del_fail: "fst (cm_delete cache key b) = Inr False"
    if "fst (be_delete cache key b) = Inl (Exception e)"
    using that by (cases "be_delete cache key b") (simp add: cm_delete_def try_except_def bind_def)
  have get_fail: "fst (cm_get cache key dflt b) = Inr dflt"
    if "fst (be_get cache key dflt b) = Inl (Exception e)"
    using that by (simp add: cm_get_def try_except_on_Exception)
  have pat_fail: "fst (cm_delete_pattern CACHES cache pattern b) = Inr 0"
    if "fst (delete_pattern_body CACHES cache pattern b) = Inl (Exception e)"
    using that by (simp add: cm_delete_pattern_def try_except_on_Exception)
  have never: "fst (cm_get cache key dflt b) \<noteq> Inl (Exception e')"
    "fst (cm_set cache key v t b) \<noteq> Inl (Exception e')"
    "fst (cm_delete cache key b) \<noteq> Inl (Exception e')"
    "fst (cm_delete_pattern CACHES cache pattern b) \<noteq> Inl (Exception e')"
    unfolding cm_get_def cm_set_def cm_delete_def cm_delete_pattern_def
    by (rule try_except_never_Exception)+
  show ?thesis
    using set_fail tier_fail del_fail get_fail pat_fail never by blast
qed

text \<open>C10 at a Redis cache whose server is down.\<close>

theorem cache_manager_swallows_backend_exceptions_witness:
  "fst (cm_get unreachable ''k'' PNone ()) = Inr PNone
   \<and> fst (cm_set unreachable ''k'' (PInt 1) (Seconds 60) ()) = Inr False
   \<and> fst (cm_set unreachable ''k'' (PInt 1) (Tier ''short'') ()) = Inr False
   \<and> fst (cm_delete unreachable ''k'' ()) = Inr False
   \<and> fst (cm_delete_pattern redis_settings unreachable ''order:*'' ()) = Inr 0"
proof -
  have b: "fst (delete_pattern_body redis_settings unreachable ''order:*'' ()) =
      Inl (Exception ''ConnectionError'')"
    by code_simp
  show ?thesis
    using cache_manager_swallows_backend_exceptions [of unreachable "''k''" PNone "()"
        "''ConnectionError''" "PInt 1" 60 "''short''" redis_settings "''order:*''"] b
    by (simp add: unreachable_def raise_def)
qed


section \<open>Properties of Order.save\<close>

lemma digit_char_value: "d < 10 \<Longrightarrow> of_char (digit_char d) - (48::nat) = d"
proof -
  assume "d < 10"
  then have "d \<in> {0, 1, 2, 3, 4, 5, 6, 7, 8, 9}" by auto
  then show ?thesis by (auto simp: digit_char_def)
qed

lemma decimal_snoc: "decimal (ds @ [c]) = 10 * decimal ds + (of_char c - 48)"
  by (simp add: decimal_def)

lemma decimal_str_nat: "decimal (str_nat n) = n"
proof (induction n rule: str_nat.induct)
  case (1 n)
  show ?case
  proof (cases "n < 10")
    case True
    then show ?thesis
      using digit_char_value [of n] by (simp add: str_nat.simps [of n] decimal_def)
  next
    case False
    then have "decimal (str_nat (n div 10)) = n div 10" using 1 by simp
    moreover have "of_char (digit_char (n mod 10)) - (48::nat) = n mod 10"
      by (rule digit_char_value) simp
    ultimately show ?thesis
      using False by (simp add: str_nat.simps [of n] decimal_snoc)
  qed
qed

lemma decimal_zeros: "decimal (replicate k CHR ''0'' @ ds) = decimal ds"
proof -
  have "foldl (\<lambda>acc c. 10 * acc + (of_char c - 48)) 0 (replicate k CHR ''0'') = (0::nat)"
    by (induction k) simp_all
  then show ?thesis by (simp add: decimal_def)
qed

lemma decimal_format_06d: "decimal (format_06d n) = n"
  by (simp add: format_06d_def decimal_zeros decimal_str_nat)

lemma length_str_nat: "0 < k \<Longrightarrow> n < 10 ^ k \<Longrightarrow> length (str_nat n) \<le> k"
proof (induction n arbitrary: k rule: str_nat.induct)
  case (1 n)
  show ?case
  proof (cases "n < 10")
    case True
    with 1 show ?thesis by (simp add: str_nat.simps [of n])
  next
    case False
    obtain j where k: "k = Suc j" using 1(2) by (cases k) auto
    have "0 < j" using False 1(3) k by (cases j) auto
    moreover have "n div 10 < 10 ^ j" using 1(3) k by (simp add: less_mult_imp_div_less)
    ultimately have "length (str_nat (n div 10)) \<le> j" using 1(1) False by simp
    then show ?thesis using False k by (simp add: str_nat.simps [of n])
  qed
qed

lemma length_format_06d: "n < 1000000 \<Longrightarrow> length (format_06d n) = 6"
proof -
  assume "n < 1000000"
  then have "length (str_nat n) \<le> 6" using length_str_nat [of 6 n] by simp
  then show ?thesis by (simp add: format_06d_def)
qed

lemma bind_raise: "bind (raise e) f = raise e"
  by (rule ext) (simp add: bind_def raise_def)

lemma order_post_save_frame:
  "orders (order_post_save inst c s) = orders s"
  "next_order_id (order_post_save inst c s) = next_order_id s"
  "products (order_post_save inst c s) = products s"
  "carts (order_post_save inst c s) = carts s"
  "cart_items (order_post_save inst c s) = cart_items s"
  "next_cart_item_id (order_post_save inst c s) = next_cart_item_id s"
  "order_items (order_post_save inst c s) = order_items s"
  "status_history (order_post_save inst c s) = status_history s"
  "layer (order_post_save inst c s) = layer s"
  by (simp_all add: order_post_save_def Let_def split: option.splits channel_layer.splits)

lemma o_id_write_fields:
  "o_id inst = Some i \<Longrightarrow> o_id row = Some i \<Longrightarrow> o_id (write_fields uf inst row) = Some i"
  by (simp add: write_fields_def Let_def split: option.splits)

lemma find_row:
  "find P rows = Some found \<Longrightarrow> found \<in> set rows \<and> P found"
  by (auto simp: find_Some_iff)

lemma model_save_insert:
  assumes "o_id inst = None"
  shows "model_save inst None s =
    (Inr (inst\<lparr>o_id := Some (next_order_id s)\<rparr>),
     order_post_save (inst\<lparr>o_id := Some (next_order_id s)\<rparr>) True
       (s\<lparr>orders := orders s @ [inst\<lparr>o_id := Some (next_order_id s)\<rparr>],
          next_order_id := Suc (next_order_id s)\<rparr>))"
  using assms by (simp add: model_save_def Let_def)

lemma model_save_update:
  assumes "o_id inst = Some i" "\<exists>row \<in> set (orders s). o_id row = Some i"
  shows "model_save inst uf s =
    (Inr inst,
     order_post_save inst False
       (s\<lparr>orders := map (\<lambda>row. if o_id row = Some i then write_fields uf inst row else row)
                        (orders s)\<rparr>))"
proof -
  from assms(2) have "find (\<lambda>row. o_id row = Some i) (orders s) \<noteq> None"
    by (auto simp: find_None_iff)
  then obtain found where "find (\<lambda>row. o_id row = Some i) (orders s) = Some found" by blast
  with assms(1) show ?thesis by (simp add: model_save_def Let_def)
qed

lemma model_save_result:
  assumes "model_save inst uf s = (Inr inst', s')"
  shows "\<exists>i. inst' = inst\<lparr>o_id := Some i\<rparr> \<and> (\<exists>row \<in> set (orders s'). o_id row = Some i)"
proof (cases "o_id inst")
  case None
  with assms show ?thesis
    by (cases uf) (auto simp: model_save_def Let_def order_post_save_frame)
next
  case (Some i)
  show ?thesis
  proof (cases "find (\<lambda>row. o_id row = Some i) (orders s)")
    case None
    note missing = this
    have pk: "o_id inst = Some i" by fact
    show ?thesis
    proof (cases uf)
      case (Some fs)
      with missing pk assms show ?thesis by (simp add: model_save_def)
    next
      case None
      with missing pk assms have "inst' = inst" "orders s' = orders s @ [inst]"
        by (auto simp: model_save_def Let_def order_post_save_frame)
      moreover have "inst\<lparr>o_id := Some i\<rparr> = inst" using pk by simp
      ultimately show ?thesis using pk by (intro exI [of _ i]) simp
    qed
  next
    case (Some found)
    then have f: "found \<in> set (orders s)" "o_id found = Some i" using find_row by fastforce+
    then have ex: "\<exists>row \<in> set (orders s). o_id row = Some i" by blast
    have eq: "inst\<lparr>o_id := Some i\<rparr> = inst" using \<open>o_id inst = Some i\<close> by simp
    have "o_id (write_fields uf inst found) = Some i"
      using \<open>o_id inst = Some i\<close> f(2) by (rule o_id_write_fields)
    then have in_map: "\<exists>row \<in> set (map (\<lambda>row. if o_id row = Some i then write_fields uf inst row else row)
                        (orders s)). o_id row = Some i"
      using f by force
    from assms model_save_update [OF \<open>o_id inst = Some i\<close> ex, of uf]
    have "inst' = inst"
      "orders s' = map (\<lambda>row. if o_id row = Some i then write_fields uf inst row else row) (orders s)"
      by (auto simp: order_post_save_frame)
    with in_map eq show ?thesis by (intro exI [of _ i]) simp
  qed
qed

lemma order_save_numbered:
  assumes "order_save self uf s = (Inr self', s')" "order_number self = []"
  shows "\<exists>i. o_id self' = Some i \<and> order_number self' = ''ORD-'' @ format_06d i
           \<and> (\<exists>row \<in> set (orders s'). o_id row = Some i)
           \<and> (\<forall>row \<in> set (orders s'). o_id row = Some i \<longrightarrow>
                  order_number row = ''ORD-'' @ format_06d i)"
proof -
  obtain r1 s1 where m1: "model_save self uf s = (r1, s1)" by (cases "model_save self uf s")
  show ?thesis
  proof (cases r1)
    case (Inl e)
    with m1 assms show ?thesis by (simp add: order_save_def bind_def)
  next
    case (Inr self1)
    with m1 obtain i where i: "self1 = self\<lparr>o_id := Some i\<rparr>"
        "\<exists>row \<in> set (orders s1). o_id row = Some i"
      using model_save_result by blast
    let ?numbered = "self1\<lparr>order_number := ''ORD-'' @ format_06d i\<rparr>"
    have id: "o_id ?numbered = Some i" using i(1) by simp
    have "order_save self uf s = model_save ?numbered (Some [F_order_number]) s1"
      using m1 Inr assms(2) i(1) by (simp add: order_save_def bind_def)
    with assms(1) model_save_update [OF id i(2), of "Some [F_order_number]"]
    have r: "self' = ?numbered"
      "orders s' = map (\<lambda>row. if o_id row = Some i
                        then write_fields (Some [F_order_number]) ?numbered row else row) (orders s1)"
      by (auto simp: order_post_save_frame)
    have w: "\<And>row. order_number (write_fields (Some [F_order_number]) ?numbered row)
                = ''ORD-'' @ format_06d i"
            "\<And>row. o_id (write_fields (Some [F_order_number]) ?numbered row) = o_id row"
      by (simp_all add: write_fields_def)
    from i(2) obtain row where row: "row \<in> set (orders s1)" "o_id row = Some i" by blast
    then have "write_fields (Some [F_order_number]) ?numbered row \<in> set (orders s')"
      unfolding r(2) by force
    moreover have "o_id (write_fields (Some [F_order_number]) ?numbered row) = Some i"
      using w(2) row(2) by simp
    ultimately have "\<exists>row \<in> set (orders s'). o_id row = Some i" by blast
    moreover have "\<forall>row \<in> set (orders s'). o_id row = Some i \<longrightarrow>
                  order_number row = ''ORD-'' @ format_06d i"
      unfolding r(2) using w(1) by auto
    ultimately show ?thesis using r(1) i(1) by simp
  qed
qed

lemma order_save_keeps_number:
  assumes "order_save self uf s = (Inr self', s')" "order_number self \<noteq> []"
  shows "order_number self' = order_number self"
proof -
  from assms have "model_save self uf s = (Inr self', s')" by (simp add: order_save_def)
  then obtain i where "self' = self\<lparr>o_id := Some i\<rparr>" using model_save_result by blast
  then show ?thesis by simp
qed

lemma order_save_fresh:
  assumes "o_id self = None"
  shows "\<exists>self' s'. order_save self None s = (Inr self', s')"
proof (cases "order_number self = []")
  case False
  then show ?thesis using model_save_insert [OF assms, of s] by (simp add: order_save_def)
next
  case True
  let ?s1 = "order_post_save (self\<lparr>o_id := Some (next_order_id s)\<rparr>) True
       (s\<lparr>orders := orders s @ [self\<lparr>o_id := Some (next_order_id s)\<rparr>],
          next_order_id := Suc (next_order_id s)\<rparr>)"
  let ?numbered = "self\<lparr>o_id := Some (next_order_id s),
                       order_number := ''ORD-'' @ format_06d (next_order_id s)\<rparr>"
  have ex: "\<exists>row \<in> set (orders ?s1). o_id row = Some (next_order_id s)"
    by (simp add: order_post_save_frame)
  have id: "o_id ?numbered = Some (next_order_id s)" by simp
  show ?thesis
    using True model_save_insert [OF assms, of s]
      model_save_update [OF id ex, of "Some [F_order_number]"]
    by (simp add: order_save_def bind_def)
qed

text \<open>
  C9. An order saved without an order number gets \<open>ORD-\<close> followed by its database
  id, padded with zeros to six digits (the instance and every row of that id carry it, a
  never-saved order does get saved, the digits read back as the id and are six for an id
  below a million); an order saved with a number keeps it.
\<close>

theorem order_save_assigns_order_number:
  "(o_id self = None \<longrightarrow> (\<exists>self' s'. order_save self None s = (Inr self', s')))
   \<and> (order_save self uf s = (Inr self', s') \<and> order_number self = [] \<longrightarrow>
        (\<exists>i. o_id self' = Some i \<and> order_number self' = ''ORD-'' @ format_06d i
           \<and> (\<exists>row \<in> set (orders s'). o_id row = Some i)
           \<and> (\<forall>row \<in> set (orders s'). o_id row = Some i \<longrightarrow>
                  order_number row = ''ORD-'' @ format_06d i)))
   \<and> (order_save self uf s = (Inr self', s') \<and> order_number self \<noteq> [] \<longrightarrow>
        order_number self' = order_number self)
   \<and> format_06d n = replicate (6 - length (str_nat n)) CHR ''0'' @ str_nat n
   \<and> decimal (format_06d n) = n
   \<and> (n < 1000000 \<longrightarrow> length (format_06d n) = 6)"
  using order_save_fresh [of self s] order_save_numbered [of self uf s self' s']
    order_save_keeps_number [of self uf s self' s'] decimal_format_06d [of n]
    length_format_06d [of n]
  by (simp add: format_06d_def [symmetric])

text \<open>C9 in the shop: a new order becomes number 3; order 2 keeps its number.\<close>

theorem order_save_assigns_order_number_witness:
  "o_id fresh_order = None
   \<and> order_number fresh_order = []
   \<and> fst (order_save fresh_order None shop) =
       Inr (fresh_order\<lparr>o_id := Some 3, order_number := ''ORD-000003''\<rparr>)
   \<and> map order_number (orders (snd (order_save fresh_order None shop))) =
       [''ORD-000001'', ''ORD-000002'', ''ORD-000003'']
   \<and> order_number (old_order 2 ''ORD-000002'' ''shipped'') \<noteq> []
   \<and> (\<exists>self' s'. order_save (old_order 2 ''ORD-000002'' ''shipped'')
                     (Some [F_status, F_updated_at]) shop = (Inr self', s')
                 \<and> order_number self' = ''ORD-000002'')
   \<and> format_06d 3 = ''000003''
   \<and> decimal (format_06d 3) = 3
   \<and> length (format_06d 3) = 6"
proof -
  let ?new = "fresh_order\<lparr>o_id := Some 3, order_number := ''ORD-000003''\<rparr>"
  let ?old = "old_order 2 ''ORD-000002'' ''shipped''"
  have h: "o_id fresh_order = None" "order_number fresh_order = []" "order_number ?old \<noteq> []"
    by (simp_all add: fresh_order_def old_order_def)
  have r1: "fst (order_save fresh_order None shop) = Inr ?new" by code_simp
  have r2: "map order_number (orders (snd (order_save fresh_order None shop))) =
       [''ORD-000001'', ''ORD-000002'', ''ORD-000003'']" by code_simp
  have r3: "fst (order_save ?old (Some [F_status, F_updated_at]) shop) = Inr ?old" by code_simp
  have f: "format_06d 3 = ''000003''" by code_simp
  have e1: "order_save fresh_order None shop = (Inr ?new, snd (order_save fresh_order None shop))"
    using r1 by (metis prod.collapse)
  have e3: "order_save ?old (Some [F_status, F_updated_at]) shop =
      (Inr ?old, snd (order_save ?old (Some [F_status, F_updated_at]) shop))"
    using r3 by (metis prod.collapse)
  note new = order_save_assigns_order_number
    [of fresh_order shop None ?new "snd (order_save fresh_order None shop)" 3]
  note old = order_save_assigns_order_number
    [of ?old shop "Some [F_status, F_updated_at]" ?old
       "snd (order_save ?old (Some [F_status, F_updated_at]) shop)" 3]
  have lt: "(3::nat) < 1000000" by simp
  from new lt have d: "decimal (format_06d 3) = 3" "length (format_06d 3) = 6" by blast+
  from old e3 h(3) have "order_number ?old = order_number ?old" by blast
  moreover have "order_number ?old = ''ORD-000002''" by (simp add: old_order_def)
  ultimately have k: "\<exists>self' s'. order_save ?old (Some [F_status, F_updated_at]) shop = (Inr self', s')
                 \<and> order_number self' = ''ORD-000002''"
    using e3 by blast
  show ?thesis using h r1 r2 k f d by blast
qed

section \<open>Properties of the order status update\<close>
















section \<open>Properties of checkout\<close>

lemma model_save_frame:
  assumes "model_save inst uf s = (r, s')"
  shows "products s' = products s" "carts s' = carts s" "cart_items s' = cart_items s"
    "next_cart_item_id s' = next_cart_item_id s" "order_items s' = order_items s"
    "status_history s' = status_history s" "layer s' = layer s"
  using assms
  by (auto simp: model_save_def Let_def order_post_save_frame split: option.splits)

lemma order_save_frame:
  assumes "order_save inst uf s = (r, s')"
  shows "products s' = products s" "carts s' = carts s" "cart_items s' = cart_items s"
    "next_cart_item_id s' = next_cart_item_id s" "order_items s' = order_items s"
    "status_history s' = status_history s" "layer s' = layer s"
proof -
  have "products s' = products s \<and> carts s' = carts s \<and> cart_items s' = cart_items s
    \<and> next_cart_item_id s' = next_cart_item_id s \<and> order_items s' = order_items s
    \<and> status_history s' = status_history s \<and> layer s' = layer s"
  proof (cases "order_number inst = []")
    case False
    with assms have "model_save inst uf s = (r, s')" by (simp add: order_save_def)
    from model_save_frame [OF this] show ?thesis by simp
  next
    case True
    obtain r1 s1 where m1: "model_save inst uf s = (r1, s1)" by (cases "model_save inst uf s")
    note f1 = model_save_frame [OF m1]
    show ?thesis
    proof (cases r1)
      case (Inl e)
      with m1 assms True have "s' = s1" by (simp add: order_save_def bind_def)
      with f1 show ?thesis by simp
    next
      case (Inr inst1)
      show ?thesis
      proof (cases "order_number inst1 = []")
        case False
        with m1 assms True Inr have "s' = s1" by (simp add: order_save_def bind_def ret_def)
        with f1 show ?thesis by simp
      next
        case n: True
        show ?thesis
        proof (cases "o_id inst1")
          case None
          with m1 assms True Inr n have "s' = s1" by (simp add: order_save_def bind_def raise_def)
          with f1 show ?thesis by simp
        next
          case (Some i)
          with m1 assms True Inr n have
            "model_save (inst1\<lparr>order_number := ''ORD-'' @ format_06d i\<rparr>) (Some [F_order_number]) s1 = (r, s')"
            by (simp add: order_save_def bind_def)
          from model_save_frame [OF this] f1 show ?thesis by simp
        qed
      qed
    qed
  qed
  then show "products s' = products s" "carts s' = carts s" "cart_items s' = cart_items s"
    "next_cart_item_id s' = next_cart_item_id s" "order_items s' = order_items s"
    "status_history s' = status_history s" "layer s' = layer s" by simp_all
qed

text \<open>Saving a new order without a number.\<close>

lemma order_save_new:
  assumes "o_id inst = None" "order_number inst = []"
  shows "\<exists>s'. order_save inst None s =
           (Inr (inst\<lparr>o_id := Some (next_order_id s),
                       order_number := ''ORD-'' @ format_06d (next_order_id s)\<rparr>), s')
         \<and> inst\<lparr>o_id := Some (next_order_id s),
                 order_number := ''ORD-'' @ format_06d (next_order_id s)\<rparr> \<in> set (orders s')
         \<and> next_order_id s' = Suc (next_order_id s)"
proof -
  let ?i = "next_order_id s"
  let ?s1 = "order_post_save (inst\<lparr>o_id := Some ?i\<rparr>) True
       (s\<lparr>orders := orders s @ [inst\<lparr>o_id := Some ?i\<rparr>], next_order_id := Suc ?i\<rparr>)"
  let ?numbered = "inst\<lparr>o_id := Some ?i, order_number := ''ORD-'' @ format_06d ?i\<rparr>"
  have ex: "\<exists>row \<in> set (orders ?s1). o_id row = Some ?i"
    by (simp add: order_post_save_frame)
  have id: "o_id ?numbered = Some ?i" by simp
  have w: "write_fields (Some [F_order_number]) ?numbered (inst\<lparr>o_id := Some ?i\<rparr>) = ?numbered"
    by (simp add: write_fields_def)
  have "order_save inst None s = model_save ?numbered (Some [F_order_number]) ?s1"
    using assms model_save_insert [OF assms(1), of s] by (simp add: order_save_def bind_def)
  also note model_save_update [OF id ex, of "Some [F_order_number]"]
  finally have e: "order_save inst None s =
    (Inr ?numbered, order_post_save ?numbered False
       (?s1\<lparr>orders := map (\<lambda>row. if o_id row = Some ?i
               then write_fields (Some [F_order_number]) ?numbered row else row) (orders ?s1)\<rparr>))" .
  show ?thesis
    unfolding e using w by (simp add: order_post_save_frame)
qed


lemma bind_Inr: "m s = (Inr x, s1) \<Longrightarrow> bind m f s = f x s1"
  by (simp add: bind_def)

lemma bind_Inl: "m s = (Inl e, s1) \<Longrightarrow> bind m f s = (Inl e, s1)"
  by (simp add: bind_def)

lemma sum_subtotals_pure: "snd (sum_subtotals items s) = s"
  by (induction items)
     (auto simp: ret_def bind_def item_subtotal_def get_product_def split: option.splits prod.splits sum.splits)

lemma validate_items_pure: "snd (validate_items items s) = s"
  by (induction items)
     (auto simp: ret_def raise_def bind_def get_product_def split: option.splits prod.splits sum.splits)

lemma sum_subtotals_ok:
  assumes "\<forall>item \<in> set items. products s (ci_product item) \<noteq> None"
  shows "\<exists>total. sum_subtotals items s = (Inr total, s)"
  using assms
  by (induction items) (auto simp: ret_def bind_def item_subtotal_def get_product_def)

lemma validate_items_ok_iff:
  "fst (validate_items items s) = Inr () \<longleftrightarrow>
     (\<forall>item \<in> set items. \<exists>p. products s (ci_product item) = Some p \<and> is_active p
         \<and> ci_quantity item \<le> stock p)"
  by (induction items)
     (auto simp: ret_def raise_def bind_def get_product_def split: option.splits)


lemma order_item_save_snapshot:
  "order_item_save
     \<lparr>oi_order = oid, oi_product = pid, oi_quantity = q, product_name = p_name p,
      product_sku = p_sku p, product_price = price p\<rparr> p s =
   (Inr (), s\<lparr>order_items := order_items s @
      [\<lparr>oi_order = oid, oi_product = pid, oi_quantity = q, product_name = p_name p,
        product_sku = p_sku p, product_price = price p\<rparr>]\<rparr>)"
  by (simp add: order_item_save_def Let_def)

lemma snapshots_stock_only:
  assumes "\<And>pid. products s1 pid = map_option (\<lambda>p. p\<lparr>stock := f pid p\<rparr>) (products s pid)"
  shows "snapshots s1 oid item oi = snapshots s oid item oi"
  by (cases "products s (ci_product item)") (auto simp: snapshots_def assms)

lemma quantity_of_Cons:
  "quantity_of pid (item # items) =
     (if ci_product item = pid then ci_quantity item else 0) + quantity_of pid items"
  by (simp add: quantity_of_def)

lemma create_order_items_result:
  assumes "\<forall>item \<in> set items. products s (ci_product item) \<noteq> None"
  shows "\<exists>s' new. create_order_items oid items s = (Inr (), s')
     \<and> order_items s' = order_items s @ new
     \<and> list_all2 (snapshots s oid) items new
     \<and> (\<forall>pid. products s' pid =
            map_option (\<lambda>p. p\<lparr>stock := stock p - quantity_of pid items\<rparr>) (products s pid))
     \<and> carts s' = carts s \<and> cart_items s' = cart_items s
     \<and> next_cart_item_id s' = next_cart_item_id s \<and> orders s' = orders s
     \<and> next_order_id s' = next_order_id s \<and> status_history s' = status_history s
     \<and> layer s' = layer s \<and> sent s' = sent s"
  using assms
proof (induction items arbitrary: s)
  case Nil
  then show ?case by (simp add: ret_def quantity_of_def option.map_ident)
next
  case (Cons item rest)
  then obtain p where p: "products s (ci_product item) = Some p" by auto
  let ?oi = "\<lparr>oi_order = oid, oi_product = ci_product item, oi_quantity = ci_quantity item,
              product_name = p_name p, product_sku = p_sku p, product_price = price p\<rparr>"
  let ?s1 = "s\<lparr>order_items := order_items s @ [?oi],
               products := (products s)(ci_product item \<mapsto> p\<lparr>stock := stock p - ci_quantity item\<rparr>)\<rparr>"
  have step: "create_order_items oid (item # rest) s = create_order_items oid rest ?s1"
    using p by (simp add: bind_def get_product_def order_item_save_snapshot)
  have s1: "\<And>pid. products ?s1 pid =
      map_option (\<lambda>p. p\<lparr>stock := stock p - (if ci_product item = pid then ci_quantity item else 0)\<rparr>)
        (products s pid)"
    using p by (auto simp: option.map_ident)
  have ex: "\<forall>i \<in> set rest. products ?s1 (ci_product i) \<noteq> None"
    using Cons.prems by auto
  from Cons.IH [OF ex] obtain s' new where
    r: "create_order_items oid rest ?s1 = (Inr (), s')"
    and oi: "order_items s' = order_items ?s1 @ new"
    and snap: "list_all2 (snapshots ?s1 oid) rest new"
    and prod: "\<forall>pid. products s' pid =
            map_option (\<lambda>p. p\<lparr>stock := stock p - quantity_of pid rest\<rparr>) (products ?s1 pid)"
    and frame: "carts s' = carts ?s1" "cart_items s' = cart_items ?s1"
       "next_cart_item_id s' = next_cart_item_id ?s1" "orders s' = orders ?s1"
       "next_order_id s' = next_order_id ?s1" "status_history s' = status_history ?s1"
       "layer s' = layer ?s1" "sent s' = sent ?s1"
    by blast
  have snap_eq: "snapshots ?s1 oid = snapshots s oid"
    by (intro ext) (rule snapshots_stock_only [OF s1])
  have first: "snapshots s oid item ?oi" using p by (simp add: snapshots_def)
  have prod': "\<forall>pid. products s' pid =
            map_option (\<lambda>p. p\<lparr>stock := stock p - quantity_of pid (item # rest)\<rparr>) (products s pid)"
  proof
    fix pid
    show "products s' pid =
            map_option (\<lambda>p. p\<lparr>stock := stock p - quantity_of pid (item # rest)\<rparr>) (products s pid)"
      using prod [rule_format, of pid] s1 [of pid]
      by (cases "products s pid") (simp_all add: quantity_of_Cons)
  qed
  have "order_items s' = order_items s @ (?oi # new)" using oi by simp
  moreover have "list_all2 (snapshots s oid) (item # rest) (?oi # new)"
    using snap first by (simp add: snap_eq)
  ultimately show ?case
    using step r prod' frame by (intro exI [of _ s'] exI [of _ "?oi # new"]) simp
qed


lemma sum_subtotals_snapshots:
  assumes "list_all2 (snapshots s oid) items new"
  shows "sum_subtotals items s = (Inr (sum_list (map order_item_subtotal new)), s)"
  using assms
proof (induction rule: list_all2_induct)
  case Nil
  then show ?case by (simp add: ret_def)
next
  case (Cons item oi items new)
  then show ?case
    by (auto simp: snapshots_def bind_def ret_def item_subtotal_def get_product_def
        order_item_subtotal_def)
qed


text \<open>What \<open>create\<close> does when the cart exists and every item's product exists.\<close>

lemma create_order_create_result:
  assumes "user \<in> carts s" "products_exist user s"
  shows "\<exists>s' new order.
       create_order_create user vd s = (Inr order, s')
     \<and> o_id order = Some (next_order_id s)
     \<and> order_number order = ''ORD-'' @ format_06d (next_order_id s)
     \<and> o_user order = user \<and> status order = ''pending''
     \<and> total_price order = sum_list (map order_item_subtotal new)
     \<and> subtotal order = sum_list (map order_item_subtotal new)
     \<and> order \<in> set (orders s')
     \<and> next_order_id s' = Suc (next_order_id s)
     \<and> order_items s' = order_items s @ new
     \<and> list_all2 (snapshots s (next_order_id s)) (items_of user s) new
     \<and> (\<forall>pid. products s' pid =
            map_option (\<lambda>p. p\<lparr>stock := stock p - quantity_of pid (items_of user s)\<rparr>)
              (products s pid))
     \<and> cart_items s' = filter (\<lambda>item. ci_cart item \<noteq> user) (cart_items s)
     \<and> carts s' = carts s \<and> next_cart_item_id s' = next_cart_item_id s
     \<and> status_history s' = status_history s @
          [\<lparr>h_order = next_order_id s, h_old_status = [], h_new_status = ''pending'',
            h_notes = ''Order created successfully''\<rparr>]
     \<and> layer s' = layer s"
proof -
  let ?i = "next_order_id s"
  let ?items = "items_of user s"
  have ex: "\<forall>item \<in> set ?items. products s (ci_product item) \<noteq> None"
    using assms(2) by (simp add: products_exist_def)
  from sum_subtotals_ok [OF ex] obtain total where
    total: "sum_subtotals ?items s = (Inr total, s)" by blast
  let ?inst = "\<lparr>o_id = None, o_user = user, order_number = [], status = ''pending'',
               subtotal = total, total_price = total, o_shipping = vd\<rparr>"
  let ?order = "?inst\<lparr>o_id := Some ?i, order_number := ''ORD-'' @ format_06d ?i\<rparr>"
  from order_save_new [of ?inst s] obtain s1 where
    save: "order_save ?inst None s = (Inr ?order, s1)"
    and row: "?order \<in> set (orders s1)"
    and nxt: "next_order_id s1 = Suc ?i"
    by auto
  note f1 = order_save_frame [OF save]
  have items1: "items_of user s1 = ?items" using f1(3) by (simp add: items_of_def)
  have ex1: "\<forall>item \<in> set ?items. products s1 (ci_product item) \<noteq> None"
    using ex f1(1) by simp
  from create_order_items_result [OF ex1, of ?i] obtain s2 new where
    loop: "create_order_items ?i ?items s1 = (Inr (), s2)"
    and oi: "order_items s2 = order_items s1 @ new"
    and snap: "list_all2 (snapshots s1 ?i) ?items new"
    and prod: "\<forall>pid. products s2 pid =
            map_option (\<lambda>p. p\<lparr>stock := stock p - quantity_of pid ?items\<rparr>) (products s1 pid)"
    and f2: "carts s2 = carts s1" "cart_items s2 = cart_items s1"
       "next_cart_item_id s2 = next_cart_item_id s1" "orders s2 = orders s1"
       "next_order_id s2 = next_order_id s1" "status_history s2 = status_history s1"
       "layer s2 = layer s1" "sent s2 = sent s1"
    by blast
  have snap_s: "list_all2 (snapshots s ?i) ?items new"
  proof -
    have "snapshots s1 ?i = snapshots s ?i"
      by (intro ext) (simp add: snapshots_def f1(1))
    with snap show ?thesis by simp
  qed
  from sum_subtotals_snapshots [OF snap_s] total
  have tot: "total = sum_list (map order_item_subtotal new)" by simp
  let ?s' = "s2\<lparr>status_history := status_history s2 @
                 [\<lparr>h_order = ?i, h_old_status = [], h_new_status = ''pending'',
                   h_notes = ''Order created successfully''\<rparr>],
               cart_items := filter (\<lambda>item. ci_cart item \<noteq> user) (cart_items s2)\<rparr>"
  have run: "create_order_create user vd s = (Inr ?order, ?s')"
    using assms(1) total save loop items1
    by (simp add: create_order_create_def atomic_def bind_def cart_total_price_def
        history_create_def ret_def)
  show ?thesis
    unfolding run
    using tot row nxt oi snap_s prod f1 f2
    by (intro exI [of _ ?s'] exI [of _ new] exI [of _ ?order]) simp
qed


lemma create_order_fields_pure: "snd (create_order_fields data s) = s"
  by (simp add: create_order_fields_def Let_def ret_def raise_def)

lemma create_order_fields_error:
  "fst (create_order_fields data s) = Inl e \<Longrightarrow> \<exists>ds. e = ValidationError ds"
  by (auto simp: create_order_fields_def Let_def ret_def raise_def split: if_splits)

lemma create_order_validate_pure: "snd (create_order_validate user s) = s"
  using validate_items_pure [of "items_of user s" s]
  by (simp add: create_order_validate_def)

lemma create_order_validate_ok_iff:
  "fst (create_order_validate user s) = Inr () \<longleftrightarrow>
     user \<in> carts s \<and> items_of user s \<noteq> [] \<and> purchasable user s"
  using validate_items_ok_iff [of "items_of user s" s]
  by (auto simp: create_order_validate_def purchasable_def)


lemma purchasable_exist: "purchasable user s \<Longrightarrow> products_exist user s"
  by (auto simp: purchasable_def products_exist_def)


text \<open>The three ways \<open>CreateOrderView.post\<close> can go.\<close>

lemma create_order_post_fields_fail:
  assumes "fst (create_order_fields data s) = Inl e"
  shows "create_order_post user data s = (Inl e, s)"
proof -
  have "create_order_fields data s = (Inl e, s)"
    using assms create_order_fields_pure [of data s] by (metis prod.collapse)
  then show ?thesis by (simp add: create_order_post_def bind_Inl)
qed

lemma create_order_post_validate_fail:
  assumes "fst (create_order_fields data s) = Inr vd" "fst (create_order_validate user s) = Inl e"
  shows "create_order_post user data s = (Inl e, s)"
proof -
  have "create_order_fields data s = (Inr vd, s)"
    using assms(1) create_order_fields_pure [of data s] by (metis prod.collapse)
  moreover have "create_order_validate user s = (Inl e, s)"
    using assms(2) create_order_validate_pure [of user s] by (metis prod.collapse)
  ultimately show ?thesis by (simp add: create_order_post_def bind_Inl bind_Inr)
qed

lemma create_order_post_valid:
  assumes "fst (create_order_fields data s) = Inr vd" "fst (create_order_validate user s) = Inr ()"
  shows "create_order_post user data s =
     (case create_order_create user vd s of
        (Inl e, s') \<Rightarrow> (Inl e, s')
      | (Inr order, s') \<Rightarrow> (Inr (Response 201 (OrderBody order)), s'))"
proof -
  have "create_order_fields data s = (Inr vd, s)"
    using assms(1) create_order_fields_pure [of data s] by (metis prod.collapse)
  moreover have "create_order_validate user s = (Inr (), s)"
    using assms(2) create_order_validate_pure [of user s] by (metis prod.collapse)
  ultimately show ?thesis
    by (simp add: create_order_post_def bind_Inr) (simp add: bind_def ret_def split: prod.splits sum.splits)
qed

lemma create_order_post_success:
  assumes "create_order_post user data s = (Inr resp, s')"
  shows "\<exists>vd order. fst (create_order_fields data s) = Inr vd
     \<and> user \<in> carts s \<and> items_of user s \<noteq> [] \<and> purchasable user s
     \<and> create_order_create user vd s = (Inr order, s')
     \<and> resp = Response 201 (OrderBody order)"
proof -
  obtain vd where vd: "fst (create_order_fields data s) = Inr vd"
    using assms create_order_post_fields_fail [of data s _ user]
    by (cases "fst (create_order_fields data s)") auto
  have ok: "fst (create_order_validate user s) = Inr ()"
    using assms create_order_post_validate_fail [OF vd, of user]
    by (cases "fst (create_order_validate user s)") auto
  from create_order_post_valid [OF vd ok] assms obtain order where
    "create_order_create user vd s = (Inr order, s')" "resp = Response 201 (OrderBody order)"
    by (auto split: prod.splits sum.splits)
  with vd ok show ?thesis by (auto simp: create_order_validate_ok_iff)
qed




text \<open>
  C5. After a successful checkout the user's cart has no items (and the items of other
  carts are as they were).
\<close>

theorem checkout_clears_cart:
  assumes "create_order_post user data s = (Inr resp, s')"
  shows "items_of user s' = [] \<and> (\<forall>other. other \<noteq> user \<longrightarrow> items_of other s' = items_of other s)"
proof -
  from create_order_post_success [OF assms] obtain vd order where
    ok: "user \<in> carts s" "purchasable user s"
    and cr: "create_order_create user vd s = (Inr order, s')"
    by blast
  from create_order_create_result [OF ok(1) purchasable_exist [OF ok(2)], of vd] cr
  have c: "cart_items s' = filter (\<lambda>item. ci_cart item \<noteq> user) (cart_items s)" by auto
  have "items_of user s' = []" by (simp add: items_of_def c filter_empty_conv)
  moreover have "items_of other s' = items_of other s" if "other \<noteq> user" for other
    using that by (auto simp: items_of_def c intro: filter_cong)
  ultimately show ?thesis by blast
qed

lemma atomic_failure_state:
  assumes "atomic block s = (Inl e, s')"
  shows "\<exists>msgs. s' = s\<lparr>sent := msgs\<rparr>"
proof -
  obtain r b where b: "block s = (r, b)" by (cases "block s")
  with assms have "s' = s\<lparr>sent := sent b\<rparr>"
    by (cases r) (simp_all add: atomic_def)
  then show ?thesis by (rule exI [of _ "sent b"])
qed







text \<open>C5 in the shop.\<close>

theorem checkout_clears_cart_witness:
  "fst (create_order_post 7 address shop) =
       Inr (Response 201 (OrderBody (fresh_order\<lparr>o_id := Some 3, order_number := ''ORD-000003''\<rparr>)))
   \<and> items_of 7 shop \<noteq> []
   \<and> items_of 7 (snd (create_order_post 7 address shop)) = []"
proof -
  let ?r = "create_order_post 7 address shop"
  let ?order = "fresh_order\<lparr>o_id := Some 3, order_number := ''ORD-000003''\<rparr>"
  have r1: "fst ?r = Inr (Response 201 (OrderBody ?order))" by code_simp
  have ne: "items_of 7 shop \<noteq> []" by (simp add: shop_def items_of_def)
  have e: "?r = (Inr (Response 201 (OrderBody ?order)), snd ?r)"
    using r1 by (metis prod.collapse)
  from checkout_clears_cart [OF e] have "items_of 7 (snd ?r) = []" by blast
  with r1 ne show ?thesis by blast
qed



section \<open>Properties of the cart\<close>

lemma cart_item_save_rejects:
  assumes "products s (ci_product self) = Some p" "stock p < ci_quantity self"
  shows "cart_item_save self s = (Inl ValueError, s)"
  using assms by (simp add: cart_item_save_def bind_def get_product_def raise_def)

lemma cart_item_save_insert:
  assumes "products s (ci_product self) = Some p" "ci_quantity self \<le> stock p" "ci_id self = None"
  shows "cart_item_save self s =
    (Inr (self\<lparr>ci_id := Some (next_cart_item_id s)\<rparr>),
     s\<lparr>cart_items := cart_items s @ [self\<lparr>ci_id := Some (next_cart_item_id s)\<rparr>],
       next_cart_item_id := Suc (next_cart_item_id s)\<rparr>)"
  using assms by (simp add: cart_item_save_def bind_def get_product_def Let_def)

lemma cart_item_save_update:
  assumes "products s (ci_product self) = Some p" "ci_quantity self \<le> stock p" "ci_id self = Some i"
    "\<exists>row \<in> set (cart_items s). ci_id row = Some i"
  shows "cart_item_save self s =
    (Inr self, s\<lparr>cart_items := map (\<lambda>row. if ci_id row = Some i then self else row) (cart_items s)\<rparr>)"
proof -
  from assms(4) have "find (\<lambda>row. ci_id row = Some i) (cart_items s) \<noteq> None"
    by (auto simp: find_None_iff)
  then obtain found where "find (\<lambda>row. ci_id row = Some i) (cart_items s) = Some found" by blast
  with assms(1,2,3) show ?thesis by (simp add: cart_item_save_def bind_def get_product_def)
qed

lemma cart_item_save_failure: "fst (cart_item_save self s) = Inl e \<Longrightarrow> snd (cart_item_save self s) = s"
  by (auto simp: cart_item_save_def bind_def get_product_def raise_def Let_def
      split: option.splits if_splits)

text \<open>Rows with the primary key of a given row are that row.\<close>

lemma row_of_id:
  assumes "distinct (map ci_id rows)" "row \<in> set rows" "r \<in> set rows" "ci_id r = ci_id row"
  shows "r = row"
  using assms by (meson distinct_map inj_onD)

lemma update_row_keys:
  assumes "distinct (map ci_id rows)" "row \<in> set rows" "ci_id row = Some i"
    and g: "g (row\<lparr>ci_quantity := q\<rparr>) = g row"
  shows "map g (map (\<lambda>r. if ci_id r = Some i then row\<lparr>ci_quantity := q\<rparr> else r) rows) = map g rows"
proof -
  have "g (if ci_id r = Some i then row\<lparr>ci_quantity := q\<rparr> else r) = g r" if "r \<in> set rows" for r
    using row_of_id [OF assms(1,2) that] assms(3) g by auto
  then show ?thesis by simp
qed

lemma update_keeps_invariants:
  assumes "cart_unique s" "cart_item_ids s" "row \<in> set (cart_items s)" "ci_id row = Some i"
    and s': "cart_items s' = map (\<lambda>r. if ci_id r = Some i then row\<lparr>ci_quantity := q\<rparr> else r) (cart_items s)"
       "next_cart_item_id s' = next_cart_item_id s"
  shows "cart_unique s' \<and> cart_item_ids s'"
proof -
  have d: "distinct (map ci_id (cart_items s))" using assms(2) by (simp add: cart_item_ids_def)
  have k: "map (\<lambda>item. (ci_cart item, ci_product item)) (cart_items s') =
           map (\<lambda>item. (ci_cart item, ci_product item)) (cart_items s)"
    unfolding s'(1) by (rule update_row_keys [OF d assms(3,4)]) simp
  have i: "map ci_id (cart_items s') = map ci_id (cart_items s)"
    unfolding s'(1) by (rule update_row_keys [OF d assms(3,4)]) simp
  have "\<forall>item \<in> set (cart_items s'). \<exists>i < next_cart_item_id s'. ci_id item = Some i"
  proof
    fix item assume "item \<in> set (cart_items s')"
    then have "ci_id item \<in> set (map ci_id (cart_items s'))" by simp
    then have "ci_id item \<in> set (map ci_id (cart_items s))" by (simp only: i)
    then obtain old where old: "old \<in> set (cart_items s)" "ci_id old = ci_id item" by auto
    from assms(2) old(1) obtain j where "j < next_cart_item_id s" "ci_id old = Some j"
      unfolding cart_item_ids_def by blast
    then show "\<exists>i < next_cart_item_id s'. ci_id item = Some i"
      using old(2) s'(2) by auto
  qed
  then show ?thesis
    using assms(1) d k i by (simp add: cart_unique_def cart_item_ids_def)
qed

lemma insert_keeps_invariants:
  assumes "cart_unique s" "cart_item_ids s"
    "filter (\<lambda>item. ci_cart item = cart \<and> ci_product item = pid) (cart_items s) = []"
    and s': "cart_items s' = cart_items s @
        [\<lparr>ci_id = Some (next_cart_item_id s), ci_cart = cart, ci_product = pid, ci_quantity = q\<rparr>]"
       "next_cart_item_id s' = Suc (next_cart_item_id s)"
  shows "cart_unique s' \<and> cart_item_ids s'"
proof -
  have new_key: "(cart, pid) \<notin> set (map (\<lambda>item. (ci_cart item, ci_product item)) (cart_items s))"
    using assms(3) by (auto simp: filter_empty_conv)
  have new_id: "Some (next_cart_item_id s) \<notin> set (map ci_id (cart_items s))"
    using assms(2) by (auto simp: cart_item_ids_def)
  have "\<forall>item \<in> set (cart_items s'). \<exists>i < next_cart_item_id s'. ci_id item = Some i"
    using assms(2) s' by (auto simp: cart_item_ids_def less_Suc_eq)
  then show ?thesis
    using assms(1,2) new_key new_id s'(1) by (simp add: cart_unique_def cart_item_ids_def)
qed

lemma filter_by_key:
  assumes "cart_unique s" "item \<in> set (cart_items s)"
  shows "filter (\<lambda>r. ci_cart r = ci_cart item \<and> ci_product r = ci_product item) (cart_items s) = [item]"
proof -
  have "filter (\<lambda>r. (ci_cart item, ci_product item) = (ci_cart r, ci_product r)) (cart_items s) = [item]"
    using assms filter_key_distinct [of "\<lambda>r. (ci_cart r, ci_product r)" "cart_items s" item]
    by (simp add: cart_unique_def)
  moreover have "filter (\<lambda>r. ci_cart r = ci_cart item \<and> ci_product r = ci_product item) (cart_items s) =
    filter (\<lambda>r. (ci_cart item, ci_product item) = (ci_cart r, ci_product r)) (cart_items s)"
    by (rule filter_cong) auto
  ultimately show ?thesis by (simp only:)
qed

lemma filter_key_cases:
  assumes "cart_unique s"
  shows "filter (\<lambda>r. ci_cart r = cart \<and> ci_product r = pid) (cart_items s) = [] \<or>
    (\<exists>item \<in> set (cart_items s). ci_cart item = cart \<and> ci_product item = pid \<and>
       filter (\<lambda>r. ci_cart r = cart \<and> ci_product r = pid) (cart_items s) = [item])"
proof (cases "filter (\<lambda>r. ci_cart r = cart \<and> ci_product r = pid) (cart_items s)")
  case Nil
  then show ?thesis by simp
next
  case (Cons item rest)
  then have "item \<in> set (filter (\<lambda>r. ci_cart r = cart \<and> ci_product r = pid) (cart_items s))"
    by simp
  then have m: "item \<in> set (cart_items s)" "ci_cart item = cart" "ci_product item = pid" by auto
  from filter_by_key [OF assms m(1)] m show ?thesis by auto
qed

text \<open>What \<open>AddToCartSerializer\<close> lets through.\<close>

lemma add_to_cart_valid_cases:
  "(\<exists>ds. add_to_cart_valid data s = (Inl (ValidationError ds), s)) \<or>
   (\<exists>pid p. a_product_id data = Some pid \<and> products s pid = Some p \<and> is_active p
      \<and> 0 < stock p
      \<and> 1 \<le> (case a_quantity data of None \<Rightarrow> 1 | Some q \<Rightarrow> q)
      \<and> (case a_quantity data of None \<Rightarrow> 1 | Some q \<Rightarrow> q) \<le> stock p
      \<and> add_to_cart_valid data s =
          (Inr (pid, case a_quantity data of None \<Rightarrow> 1 | Some q \<Rightarrow> q), s))"
proof (cases "a_product_id data")
  case None
  then show ?thesis by (simp add: add_to_cart_valid_def Let_def)
next
  case (Some pid)
  note pid = this
  show ?thesis
  proof (cases "products s pid")
    case None
    with pid show ?thesis by (simp add: add_to_cart_valid_def Let_def)
  next
    case (Some p)
    note p = this
    show ?thesis
    proof (cases "is_active p \<and> 0 < stock p")
      case False
      with pid p show ?thesis by (auto simp: add_to_cart_valid_def Let_def)
    next
      case True
      note act = this
      show ?thesis
      proof (cases "a_quantity data")
        case None
        with pid p act show ?thesis by (auto simp: add_to_cart_valid_def Let_def)
      next
        case (Some q)
        with pid p act show ?thesis
          by (cases "q < 1"; cases "stock p < q") (simp_all add: add_to_cart_valid_def Let_def)
      qed
    qed
  qed
qed


lemma add_to_cart_valid_ok:
  assumes "a_product_id data = Some pid" "products s pid = Some p" "is_active p" "0 < stock p"
    "1 \<le> (case a_quantity data of None \<Rightarrow> 1 | Some q \<Rightarrow> q)"
    "(case a_quantity data of None \<Rightarrow> 1 | Some q \<Rightarrow> q) \<le> stock p"
  shows "add_to_cart_valid data s =
          (Inr (pid, case a_quantity data of None \<Rightarrow> 1 | Some q \<Rightarrow> q), s)"
  using assms by (cases "a_quantity data") (simp_all add: add_to_cart_valid_def Let_def)

lemma add_to_cart_post_invalid:
  assumes "add_to_cart_valid data s = (Inl e, s)"
  shows "add_to_cart_post user data s = (Inl e, s)"
  using assms by (simp add: add_to_cart_post_def atomic_def bind_def)

lemma add_to_cart_post_new:
  assumes "add_to_cart_valid data s = (Inr (pid, n), s)" "products s pid = Some p" "n \<le> stock p"
    "filter (\<lambda>item. ci_cart item = user \<and> ci_product item = pid) (cart_items s) = []"
  shows "add_to_cart_post user data s =
    (Inr (Response 201 (CartItemBody
        \<lparr>ci_id = Some (next_cart_item_id s), ci_cart = user, ci_product = pid, ci_quantity = n\<rparr>)),
     s\<lparr>carts := insert user (carts s),
       cart_items := cart_items s @
         [\<lparr>ci_id = Some (next_cart_item_id s), ci_cart = user, ci_product = pid, ci_quantity = n\<rparr>],
       next_cart_item_id := Suc (next_cart_item_id s)\<rparr>)"
proof -
  let ?s1 = "s\<lparr>carts := insert user (carts s)\<rparr>"
  let ?new = "\<lparr>ci_id = None, ci_cart = user, ci_product = pid, ci_quantity = n\<rparr>"
  have save: "cart_item_save ?new ?s1 =
    (Inr (?new\<lparr>ci_id := Some (next_cart_item_id ?s1)\<rparr>),
     ?s1\<lparr>cart_items := cart_items ?s1 @ [?new\<lparr>ci_id := Some (next_cart_item_id ?s1)\<rparr>],
       next_cart_item_id := Suc (next_cart_item_id ?s1)\<rparr>)"
    by (rule cart_item_save_insert [where p = p]) (simp_all add: assms)
  show ?thesis
    using assms(1,4) save
    by (simp add: add_to_cart_post_def atomic_def bind_def cart_get_or_create_def
        cart_item_get_or_create_def ret_def)
qed

lemma add_to_cart_post_existing:
  assumes "add_to_cart_valid data s = (Inr (pid, n), s)" "products s pid = Some p"
    "filter (\<lambda>item. ci_cart item = user \<and> ci_product item = pid) (cart_items s) = [item]"
    "ci_id item = Some i"
  shows "add_to_cart_post user data s =
    (if stock p < ci_quantity item + n
     then (Inr (Response 400 (ErrorBody (OnlyUnits (stock p)))), s\<lparr>carts := insert user (carts s)\<rparr>)
     else (Inr (Response 201 (CartItemBody (item\<lparr>ci_quantity := ci_quantity item + n\<rparr>))),
           s\<lparr>carts := insert user (carts s),
             cart_items := map (\<lambda>row. if ci_id row = Some i
                                then item\<lparr>ci_quantity := ci_quantity item + n\<rparr> else row)
                             (cart_items s)\<rparr>))"
proof -
  let ?s1 = "s\<lparr>carts := insert user (carts s)\<rparr>"
  let ?upd = "item\<lparr>ci_quantity := ci_quantity item + n\<rparr>"
  have "item \<in> set (filter (\<lambda>item. ci_cart item = user \<and> ci_product item = pid) (cart_items s))"
    unfolding assms(3) by simp
  then have pid: "ci_product item = pid" by simp
  show ?thesis
  proof (cases "stock p < ci_quantity item + n")
    case True
    then show ?thesis
      using assms(1,2,3)
      by (simp add: add_to_cart_post_def atomic_def bind_def cart_get_or_create_def
        cart_item_get_or_create_def ret_def get_product_def Let_def)
  next
    case False
    have save: "cart_item_save ?upd ?s1 =
      (Inr ?upd, ?s1\<lparr>cart_items := map (\<lambda>row. if ci_id row = Some i then ?upd else row)
                                       (cart_items ?s1)\<rparr>)"
    proof (rule cart_item_save_update [where p = p])
      show "\<exists>row \<in> set (cart_items ?s1). ci_id row = Some i"
        using \<open>item \<in> set (filter (\<lambda>item. ci_cart item = user \<and> ci_product item = pid) (cart_items s))\<close>
          assms(4) by auto
    qed (use False assms(2,4) pid in simp_all)
    show ?thesis
      using False assms(1,2,3) save
      by (simp add: add_to_cart_post_def atomic_def bind_def cart_get_or_create_def
        cart_item_get_or_create_def ret_def get_product_def Let_def)
  qed
qed


lemma invariants_carts_update:
  "cart_unique (s\<lparr>carts := c\<rparr>) = cart_unique s"
  "cart_item_ids (s\<lparr>carts := c\<rparr>) = cart_item_ids s"
  by (simp_all add: cart_unique_def cart_item_ids_def)

lemma item_has_id:
  assumes "cart_item_ids s" "item \<in> set (cart_items s)"
  shows "\<exists>i. ci_id item = Some i"
  using assms unfolding cart_item_ids_def by blast

text \<open>Adding to the cart keeps the table's constraints and leaves the products alone.\<close>

lemma add_to_cart_post_keeps:
  assumes "cart_unique s" "cart_item_ids s"
  shows "cart_unique (snd (add_to_cart_post user data s))
       \<and> cart_item_ids (snd (add_to_cart_post user data s))
       \<and> products (snd (add_to_cart_post user data s)) = products s"
proof -
  let ?n = "case a_quantity data of None \<Rightarrow> 1 | Some q \<Rightarrow> q"
  from add_to_cart_valid_cases [of data s] show ?thesis
  proof
    assume "\<exists>ds. add_to_cart_valid data s = (Inl (ValidationError ds), s)"
    then obtain ds where "add_to_cart_valid data s = (Inl (ValidationError ds), s)" by blast
    from add_to_cart_post_invalid [OF this] assms show ?thesis by simp
  next
    assume "\<exists>pid p. a_product_id data = Some pid \<and> products s pid = Some p \<and> is_active p
      \<and> 0 < stock p \<and> 1 \<le> ?n \<and> ?n \<le> stock p
      \<and> add_to_cart_valid data s = (Inr (pid, ?n), s)"
    then obtain pid p where v: "products s pid = Some p" "?n \<le> stock p"
      "add_to_cart_valid data s = (Inr (pid, ?n), s)" by blast
    from filter_key_cases [OF assms(1), of user pid] show ?thesis
    proof
      assume none: "filter (\<lambda>r. ci_cart r = user \<and> ci_product r = pid) (cart_items s) = []"
      note r = add_to_cart_post_new [OF v(3) v(1) v(2) none]
      have "cart_unique (snd (add_to_cart_post user data s))
          \<and> cart_item_ids (snd (add_to_cart_post user data s))"
        by (rule insert_keeps_invariants [OF assms none, where q = ?n]) (simp_all add: r)
      then show ?thesis by (simp add: r)
    next
      assume "\<exists>item \<in> set (cart_items s). ci_cart item = user \<and> ci_product item = pid \<and>
         filter (\<lambda>r. ci_cart r = user \<and> ci_product r = pid) (cart_items s) = [item]"
      then obtain item where item: "item \<in> set (cart_items s)"
        "filter (\<lambda>r. ci_cart r = user \<and> ci_product r = pid) (cart_items s) = [item]" by blast
      from item_has_id [OF assms(2) item(1)] obtain i where i: "ci_id item = Some i" by blast
      note r = add_to_cart_post_existing [OF v(3) v(1) item(2) i]
      show ?thesis
      proof (cases "stock p < ci_quantity item + ?n")
        case True
        with r assms show ?thesis by (simp add: invariants_carts_update)
      next
        case False
        have "cart_unique (snd (add_to_cart_post user data s))
          \<and> cart_item_ids (snd (add_to_cart_post user data s))"
          by (rule update_keeps_invariants [OF assms item(1) i, where q = "ci_quantity item + ?n"])
             (simp_all add: r False)
        then show ?thesis using False by (simp add: r)
      qed
    qed
  qed
qed

text \<open>
  C8. With the cart item table's constraints in force (unique cart and product, a primary
  key), \<open>AddToCartView.post\<close> leaves the table with one row per cart and product; for a
  product already in the user's cart it adds no row: it answers 201 with the requested
  amount (1 by default) added to that row's quantity, or 400 with the table as it was, and
  it answers 400 whenever the sum exceeds the product's stock (and 201 when the product is
  active, the amount at least 1 and the sum within stock).
\<close>

theorem add_to_cart_one_item_per_product:
  assumes "cart_unique s" "cart_item_ids s"
  shows "cart_unique (snd (add_to_cart_post user data s))
     \<and> (\<forall>item \<in> set (cart_items s).
          ci_cart item = user \<and> a_product_id data = Some (ci_product item) \<longrightarrow>
            length (cart_items (snd (add_to_cart_post user data s))) = length (cart_items s)
          \<and> (if http_status (fst (add_to_cart_post user data s)) = 201
              then cart_items (snd (add_to_cart_post user data s)) =
                     map (\<lambda>row. if ci_id row = ci_id item
                                then item\<lparr>ci_quantity := ci_quantity item
                                       + (case a_quantity data of None \<Rightarrow> 1 | Some q \<Rightarrow> q)\<rparr>
                                else row) (cart_items s)
              else http_status (fst (add_to_cart_post user data s)) = 400
                 \<and> cart_items (snd (add_to_cart_post user data s)) = cart_items s)
          \<and> (\<forall>p. products s (ci_product item) = Some p \<longrightarrow>
                (stock p < ci_quantity item + (case a_quantity data of None \<Rightarrow> 1 | Some q \<Rightarrow> q)
                   \<longrightarrow> http_status (fst (add_to_cart_post user data s)) = 400)
              \<and> (is_active p \<and> 0 \<le> ci_quantity item
                   \<and> 1 \<le> (case a_quantity data of None \<Rightarrow> 1 | Some q \<Rightarrow> q)
                   \<and> ci_quantity item + (case a_quantity data of None \<Rightarrow> 1 | Some q \<Rightarrow> q) \<le> stock p
                   \<longrightarrow> http_status (fst (add_to_cart_post user data s)) = 201)))"
proof -
  let ?n = "case a_quantity data of None \<Rightarrow> 1 | Some q \<Rightarrow> q"
  let ?r = "add_to_cart_post user data s"
  have existing: "length (cart_items (snd ?r)) = length (cart_items s)
          \<and> (if http_status (fst ?r) = 201
              then cart_items (snd ?r) =
                     map (\<lambda>row. if ci_id row = ci_id item
                                then item\<lparr>ci_quantity := ci_quantity item + ?n\<rparr> else row) (cart_items s)
              else http_status (fst ?r) = 400 \<and> cart_items (snd ?r) = cart_items s)
          \<and> (\<forall>p. products s (ci_product item) = Some p \<longrightarrow>
                (stock p < ci_quantity item + ?n \<longrightarrow> http_status (fst ?r) = 400)
              \<and> (is_active p \<and> 0 \<le> ci_quantity item \<and> 1 \<le> ?n \<and> ci_quantity item + ?n \<le> stock p
                   \<longrightarrow> http_status (fst ?r) = 201))"
    if item: "item \<in> set (cart_items s)" "ci_cart item = user"
       "a_product_id data = Some (ci_product item)" for item
  proof -
    from add_to_cart_valid_cases [of data s] show ?thesis
    proof
      assume "\<exists>ds. add_to_cart_valid data s = (Inl (ValidationError ds), s)"
      then obtain ds where inv: "add_to_cart_valid data s = (Inl (ValidationError ds), s)" by blast
      have "\<not> (is_active p \<and> 0 \<le> ci_quantity item \<and> 1 \<le> ?n \<and> ci_quantity item + ?n \<le> stock p)"
        if p: "products s (ci_product item) = Some p" for p
      proof
        assume a: "is_active p \<and> 0 \<le> ci_quantity item \<and> 1 \<le> ?n \<and> ci_quantity item + ?n \<le> stock p"
        then have "0 < stock p" "?n \<le> stock p" by linarith+
        from add_to_cart_valid_ok [OF item(3) p _ this(1) _ this(2)] a inv show False by simp
      qed
      then show ?thesis using add_to_cart_post_invalid [OF inv, of user] by auto
    next
      assume "\<exists>pid p. a_product_id data = Some pid \<and> products s pid = Some p \<and> is_active p
        \<and> 0 < stock p \<and> 1 \<le> ?n \<and> ?n \<le> stock p
        \<and> add_to_cart_valid data s = (Inr (pid, ?n), s)"
      then obtain p where v: "products s (ci_product item) = Some p"
        "add_to_cart_valid data s = (Inr (ci_product item, ?n), s)"
        using item(3) by auto
      have f: "filter (\<lambda>r. ci_cart r = user \<and> ci_product r = ci_product item) (cart_items s) = [item]"
        using filter_by_key [OF assms(1) item(1)] item(2) by simp
      from item_has_id [OF assms(2) item(1)] obtain i where i: "ci_id item = Some i" by blast
      note r = add_to_cart_post_existing [OF v(2) v(1) f i]
      show ?thesis
      proof (cases "stock p < ci_quantity item + ?n")
        case True
        with r v(1) show ?thesis by simp
      next
        case False
        with r v(1) i show ?thesis by simp
      qed
    qed
  qed
  from add_to_cart_post_keeps [OF assms, of user data] existing show ?thesis by blast
qed


lemma shop_constraints: "cart_unique shop" "cart_item_ids shop"
  by (simp_all add: cart_unique_def cart_item_ids_def shop_def)

text \<open>C8 in the shop: 3 more widgets make 5 of 5 in stock; 4 more are rejected.\<close>

theorem add_to_cart_one_item_per_product_witness:
  "cart_unique shop \<and> cart_item_ids shop
   \<and> cart_unique (snd (add_to_cart_post 7 \<lparr>a_product_id = Some 1, a_quantity = Some 3\<rparr> shop))
   \<and> http_status (fst (add_to_cart_post 7 \<lparr>a_product_id = Some 1, a_quantity = Some 3\<rparr> shop)) = 201
   \<and> cart_items (snd (add_to_cart_post 7 \<lparr>a_product_id = Some 1, a_quantity = Some 3\<rparr> shop)) =
       [\<lparr>ci_id = Some 1, ci_cart = 7, ci_product = 1, ci_quantity = 5\<rparr>,
        \<lparr>ci_id = Some 2, ci_cart = 7, ci_product = 2, ci_quantity = 1\<rparr>]
   \<and> stock widget < 2 + 4
   \<and> http_status (fst (add_to_cart_post 7 \<lparr>a_product_id = Some 1, a_quantity = Some 4\<rparr> shop)) = 400
   \<and> cart_items (snd (add_to_cart_post 7 \<lparr>a_product_id = Some 1, a_quantity = Some 4\<rparr> shop)) =
       cart_items shop"
proof -
  let ?item = "\<lparr>ci_id = Some 1, ci_cart = 7, ci_product = 1, ci_quantity = 2\<rparr>"
  let ?three = "\<lparr>a_product_id = Some 1, a_quantity = Some 3\<rparr>"
  let ?four = "\<lparr>a_product_id = Some 1, a_quantity = Some 4\<rparr>"
  have item: "?item \<in> set (cart_items shop)" by (simp add: shop_def)
  have p: "products shop (ci_product ?item) = Some widget" by (simp add: shop_def)
  have st: "stock widget < 2 + 4" by (simp add: widget_def)
  have r1: "http_status (fst (add_to_cart_post 7 ?three shop)) = 201" by code_simp
  have r2: "cart_items (snd (add_to_cart_post 7 ?three shop)) =
       [\<lparr>ci_id = Some 1, ci_cart = 7, ci_product = 1, ci_quantity = 5\<rparr>,
        \<lparr>ci_id = Some 2, ci_cart = 7, ci_product = 2, ci_quantity = 1\<rparr>]" by code_simp
  note t3 = add_to_cart_one_item_per_product [OF shop_constraints, of 7 ?three]
  note t4 = add_to_cart_one_item_per_product [OF shop_constraints, of 7 ?four]
  from t3 have u: "cart_unique (snd (add_to_cart_post 7 ?three shop))" by blast
  from t4 have "\<forall>item \<in> set (cart_items shop).
          ci_cart item = 7 \<and> a_product_id ?four = Some (ci_product item) \<longrightarrow>
          (if http_status (fst (add_to_cart_post 7 ?four shop)) = 201
              then cart_items (snd (add_to_cart_post 7 ?four shop)) =
                     map (\<lambda>row. if ci_id row = ci_id item
                                then item\<lparr>ci_quantity := ci_quantity item
                                       + (case a_quantity ?four of None \<Rightarrow> 1 | Some q \<Rightarrow> q)\<rparr>
                                else row) (cart_items shop)
              else http_status (fst (add_to_cart_post 7 ?four shop)) = 400
                 \<and> cart_items (snd (add_to_cart_post 7 ?four shop)) = cart_items shop)
          \<and> (\<forall>p. products shop (ci_product item) = Some p \<longrightarrow>
                (stock p < ci_quantity item + (case a_quantity ?four of None \<Rightarrow> 1 | Some q \<Rightarrow> q)
                   \<longrightarrow> http_status (fst (add_to_cart_post 7 ?four shop)) = 400))"
    by blast
  from bspec [OF this item] p st
  have "http_status (fst (add_to_cart_post 7 ?four shop)) = 400
      \<and> cart_items (snd (add_to_cart_post 7 ?four shop)) = cart_items shop"
    by (simp split: if_splits)
  with shop_constraints u r1 r2 st show ?thesis by blast
qed


section \<open>Stock over sequences of requests\<close>

lemma find_cart_item:
  assumes "find P rows = Some item"
  shows "item \<in> set rows" "P item"
  using assms by (auto simp: find_Some_iff)

lemma cart_item_patch_keeps:
  assumes "cart_unique s" "cart_item_ids s"
  shows "cart_unique (snd (cart_item_patch user item_id quantity s))
       \<and> cart_item_ids (snd (cart_item_patch user item_id quantity s))
       \<and> products (snd (cart_item_patch user item_id quantity s)) = products s"
proof (cases "find (\<lambda>item. ci_id item = Some item_id \<and> ci_cart item = user) (cart_items s)")
  case None
  with assms show ?thesis by (simp add: cart_item_patch_def bind_def)
next
  case (Some item)
  note found = this
  from find_cart_item [OF found] have item: "item \<in> set (cart_items s)" "ci_id item = Some item_id"
    by simp_all
  show ?thesis
  proof (cases quantity)
    case None
    with found assms show ?thesis by (simp add: cart_item_patch_def bind_def ret_def raise_def)
  next
    case (Some q)
    note q = this
    show ?thesis
    proof (cases "products s (ci_product item)")
      case None
      with found q assms show ?thesis
        by (simp add: cart_item_patch_def bind_def ret_def raise_def get_product_def)
    next
      case (Some p)
      note p = this
      show ?thesis
      proof (cases "q < 1 \<or> stock p < q")
        case True
        with found q p assms show ?thesis
          by (auto simp: cart_item_patch_def bind_def ret_def raise_def get_product_def)
      next
        case False
        have save: "cart_item_save (item\<lparr>ci_quantity := q\<rparr>) s =
          (Inr (item\<lparr>ci_quantity := q\<rparr>),
           s\<lparr>cart_items := map (\<lambda>row. if ci_id row = Some item_id then item\<lparr>ci_quantity := q\<rparr> else row)
                                (cart_items s)\<rparr>)"
        proof (rule cart_item_save_update [where p = p])
          show "\<exists>row \<in> set (cart_items s). ci_id row = Some item_id"
            using item by blast
        qed (use False p item(2) in simp_all)
        have r: "cart_item_patch user item_id quantity s =
          (Inr (Response 200 (CartItemBody (item\<lparr>ci_quantity := q\<rparr>))),
           s\<lparr>cart_items := map (\<lambda>row. if ci_id row = Some item_id then item\<lparr>ci_quantity := q\<rparr> else row)
                                (cart_items s)\<rparr>)"
          using found q p False save
          by (simp add: cart_item_patch_def bind_def ret_def raise_def get_product_def)
        have "cart_unique (snd (cart_item_patch user item_id quantity s))
          \<and> cart_item_ids (snd (cart_item_patch user item_id quantity s))"
          by (rule update_keeps_invariants [OF assms item, where q = q]) (simp_all add: r)
        then show ?thesis by (simp add: r)
      qed
    qed
  qed
qed

lemma quantity_of_unique:
  assumes "cart_unique s" "item \<in> set (items_of user s)"
  shows "quantity_of (ci_product item) (items_of user s) = ci_quantity item"
proof -
  from assms(2) have m: "item \<in> set (cart_items s)" "ci_cart item = user"
    by (simp_all add: items_of_def)
  have "filter (\<lambda>i. ci_product i = ci_product item) (items_of user s) =
        filter (\<lambda>r. ci_cart r = ci_cart item \<and> ci_product r = ci_product item) (cart_items s)"
    using m(2) by (simp add: items_of_def conj_commute)
  also have "\<dots> = [item]" by (rule filter_by_key [OF assms(1) m(1)])
  finally show ?thesis by (simp add: quantity_of_def)
qed

lemma quantity_of_absent:
  assumes "\<forall>item \<in> set items. ci_product item \<noteq> pid"
  shows "quantity_of pid items = 0"
proof -
  have "filter (\<lambda>item. ci_product item = pid) items = []"
    using assms by (simp add: filter_empty_conv)
  then show ?thesis by (simp add: quantity_of_def)
qed

lemma distinct_map_filter_keep: "distinct (map f xs) \<Longrightarrow> distinct (map f (filter P xs))"
  by (induction xs) auto

lemma create_order_post_failure_state:
  assumes "fst (create_order_post user data s) = Inl e"
  shows "\<exists>msgs. snd (create_order_post user data s) = s\<lparr>sent := msgs\<rparr>"
proof (cases "fst (create_order_fields data s)")
  case (Inl e1)
  from create_order_post_fields_fail [OF this, of user]
  show ?thesis by (intro exI [of _ "sent s"]) simp
next
  case (Inr vd)
  note vd = this
  show ?thesis
  proof (cases "fst (create_order_validate user s)")
    case (Inl e2)
    from create_order_post_validate_fail [OF vd this]
    show ?thesis by (intro exI [of _ "sent s"]) simp
  next
    case (Inr u)
    then have ok: "fst (create_order_validate user s) = Inr ()" by simp
    obtain r1 s1 where c: "create_order_create user vd s = (r1, s1)"
      by (cases "create_order_create user vd s")
    with create_order_post_valid [OF vd ok] assms obtain e1 where r1: "r1 = Inl e1"
      by (cases r1) auto
    from c r1 obtain msgs where "s1 = s\<lparr>sent := msgs\<rparr>"
      unfolding create_order_create_def using atomic_failure_state by blast
    with create_order_post_valid [OF vd ok] c r1
    have "snd (create_order_post user data s) = s\<lparr>sent := msgs\<rparr>" by simp
    then show ?thesis by (rule exI [of _ msgs])
  qed
qed

text \<open>What a successful checkout does to the stock, in a table with unique cart items.\<close>

lemma checkout_stock:
  assumes "create_order_post user data s = (Inr resp, s')" "cart_unique s"
  shows "(\<forall>item \<in> set (items_of user s).
            \<exists>p. products s (ci_product item) = Some p \<and> ci_quantity item \<le> stock p
               \<and> products s' (ci_product item) = Some (p\<lparr>stock := stock p - ci_quantity item\<rparr>))
       \<and> (\<forall>pid. (\<forall>item \<in> set (items_of user s). ci_product item \<noteq> pid) \<longrightarrow>
               products s' pid = products s pid)
       \<and> cart_items s' = filter (\<lambda>item. ci_cart item \<noteq> user) (cart_items s)
       \<and> next_cart_item_id s' = next_cart_item_id s"
proof -
  from create_order_post_success [OF assms(1)] obtain vd order where
    ok: "user \<in> carts s" "purchasable user s"
    and cr: "create_order_create user vd s = (Inr order, s')"
    by blast
  from create_order_create_result [OF ok(1) purchasable_exist [OF ok(2)], of vd] cr
  have prod: "\<And>pid. products s' pid =
            map_option (\<lambda>p. p\<lparr>stock := stock p - quantity_of pid (items_of user s)\<rparr>)
              (products s pid)"
    and rest: "cart_items s' = filter (\<lambda>item. ci_cart item \<noteq> user) (cart_items s)"
       "next_cart_item_id s' = next_cart_item_id s"
    by auto
  have a: "\<exists>p. products s (ci_product item) = Some p \<and> ci_quantity item \<le> stock p
               \<and> products s' (ci_product item) = Some (p\<lparr>stock := stock p - ci_quantity item\<rparr>)"
    if "item \<in> set (items_of user s)" for item
  proof -
    from ok(2) that obtain p where p: "products s (ci_product item) = Some p"
      "ci_quantity item \<le> stock p" unfolding purchasable_def by blast
    with prod [of "ci_product item"] quantity_of_unique [OF assms(2) that] show ?thesis by simp
  qed
  have b: "products s' pid = products s pid"
    if "\<forall>item \<in> set (items_of user s). ci_product item \<noteq> pid" for pid
    using prod [of pid] quantity_of_absent [OF that]
    by (cases "products s pid") simp_all
  from a b rest show ?thesis by blast
qed

lemma create_order_post_keeps:
  assumes "cart_unique s" "cart_item_ids s" "stock_nonneg s"
  shows "cart_unique (snd (create_order_post user data s))
       \<and> cart_item_ids (snd (create_order_post user data s))
       \<and> stock_nonneg (snd (create_order_post user data s))"
proof (cases "fst (create_order_post user data s)")
  case (Inl e)
  from create_order_post_failure_state [OF this] obtain msgs where
    "snd (create_order_post user data s) = s\<lparr>sent := msgs\<rparr>" by blast
  with assms show ?thesis
    by (simp add: cart_unique_def cart_item_ids_def stock_nonneg_def)
next
  case (Inr resp)
  let ?s' = "snd (create_order_post user data s)"
  from Inr have e: "create_order_post user data s = (Inr resp, ?s')" by (metis prod.collapse)
  from checkout_stock [OF e assms(1)] have
    inc: "\<And>item. item \<in> set (items_of user s) \<Longrightarrow>
            \<exists>p. products s (ci_product item) = Some p \<and> ci_quantity item \<le> stock p
               \<and> products ?s' (ci_product item) = Some (p\<lparr>stock := stock p - ci_quantity item\<rparr>)"
    and exc: "\<And>pid. (\<forall>item \<in> set (items_of user s). ci_product item \<noteq> pid) \<Longrightarrow>
               products ?s' pid = products s pid"
    and ci: "cart_items ?s' = filter (\<lambda>item. ci_cart item \<noteq> user) (cart_items s)"
    and nx: "next_cart_item_id ?s' = next_cart_item_id s"
    by blast+
  have u: "cart_unique ?s'"
    using assms(1) by (simp add: cart_unique_def ci distinct_map_filter_keep)
  have i: "cart_item_ids ?s'"
    using assms(2) by (auto simp: cart_item_ids_def ci nx distinct_map_filter_keep)
  have n: "stock_nonneg ?s'"
    unfolding stock_nonneg_def
  proof (intro allI impI)
    fix pid p' assume p': "products ?s' pid = Some p'"
    show "0 \<le> stock p'"
    proof (cases "\<forall>item \<in> set (items_of user s). ci_product item \<noteq> pid")
      case True
      with exc [of pid] p' assms(3) show ?thesis by (auto simp: stock_nonneg_def)
    next
      case False
      then obtain item where "item \<in> set (items_of user s)" "ci_product item = pid" by blast
      with inc [of item] p' show ?thesis by auto
    qed
  qed
  from u i n show ?thesis by blast
qed

lemma handle_keeps:
  assumes "cart_unique s" "cart_item_ids s" "stock_nonneg s"
  shows "cart_unique (handle r s) \<and> cart_item_ids (handle r s) \<and> stock_nonneg (handle r s)"
proof (cases r)
  case (AddToCart user data)
  with add_to_cart_post_keeps [OF assms(1,2), of user data] assms(3) show ?thesis
    by (simp add: stock_nonneg_def)
next
  case (PatchCartItem user item_id quantity)
  with cart_item_patch_keeps [OF assms(1,2), of user item_id quantity] assms(3) show ?thesis
    by (simp add: stock_nonneg_def)
next
  case (CreateOrder user data)
  with create_order_post_keeps [OF assms, of user data] show ?thesis by simp
qed

lemma run_keeps:
  assumes "cart_unique s" "cart_item_ids s" "stock_nonneg s"
  shows "cart_unique (run requests s) \<and> cart_item_ids (run requests s) \<and> stock_nonneg (run requests s)"
  using assms
proof (induction requests arbitrary: s)
  case Nil
  then show ?case by (simp add: run_def)
next
  case (Cons r requests)
  from handle_keeps [OF Cons.prems, of r] Cons.IH [of "handle r s"]
  show ?case by (simp add: run_def)
qed


text \<open>
  C3. From a state where no stock is negative (and the cart item table's constraints
  hold), no stock is negative after any sequence of add-to-cart, cart item update and
  checkout requests; a successful checkout takes from the stock of each product in the cart
  exactly the quantity of its cart item and leaves every other product as it was; and
  \<open>CartItem.save\<close> raises, writing nothing, when the quantity exceeds the product's stock.
\<close>

theorem stock_never_negative:
  "(cart_unique s \<and> cart_item_ids s \<and> stock_nonneg s \<longrightarrow> stock_nonneg (run requests s))
   \<and> (cart_unique s \<and> create_order_post user data s = (Inr resp, s') \<longrightarrow>
        (\<forall>item \<in> set (items_of user s).
            \<exists>p. products s (ci_product item) = Some p
               \<and> products s' (ci_product item) = Some (p\<lparr>stock := stock p - ci_quantity item\<rparr>))
      \<and> (\<forall>pid. (\<forall>item \<in> set (items_of user s). ci_product item \<noteq> pid) \<longrightarrow>
               products s' pid = products s pid))
   \<and> (products s (ci_product self) = Some p \<and> stock p < ci_quantity self \<longrightarrow>
        cart_item_save self s = (Inl ValueError, s))"
proof -
  have a: "stock_nonneg (run requests s)"
    if "cart_unique s" "cart_item_ids s" "stock_nonneg s"
    using run_keeps [OF that, of requests] by blast
  have b: "(\<forall>item \<in> set (items_of user s).
            \<exists>p. products s (ci_product item) = Some p
               \<and> products s' (ci_product item) = Some (p\<lparr>stock := stock p - ci_quantity item\<rparr>))
      \<and> (\<forall>pid. (\<forall>item \<in> set (items_of user s). ci_product item \<noteq> pid) \<longrightarrow>
               products s' pid = products s pid)"
    if "cart_unique s" "create_order_post user data s = (Inr resp, s')"
    using checkout_stock [OF that(2,1)] by blast
  have c: "cart_item_save self s = (Inl ValueError, s)"
    if "products s (ci_product self) = Some p" "stock p < ci_quantity self"
    using that by (rule cart_item_save_rejects)
  from a b c show ?thesis by blast
qed

lemma shop_stock: "stock_nonneg shop"
  by (auto simp: stock_nonneg_def shop_def widget_def gadget_def split: if_splits)

text \<open>
  C3 in the shop: after three more widgets, a second gadget and a checkout both stocks are 0;
  a checkout alone leaves 3 and 1; a cart item of three gadgets is not saved.
\<close>

theorem stock_never_negative_witness:
  "cart_unique shop \<and> cart_item_ids shop \<and> stock_nonneg shop
   \<and> stock_nonneg (run [AddToCart 7 \<lparr>a_product_id = Some 1, a_quantity = Some 3\<rparr>,
                        PatchCartItem 7 2 (Some 2), CreateOrder 7 address] shop)
   \<and> map (\<lambda>pid. map_option stock
            (products (run [AddToCart 7 \<lparr>a_product_id = Some 1, a_quantity = Some 3\<rparr>,
                            PatchCartItem 7 2 (Some 2), CreateOrder 7 address] shop) pid)) [1, 2] =
       [Some 0, Some 0]
   \<and> fst (create_order_post 7 address shop) =
       Inr (Response 201 (OrderBody (fresh_order\<lparr>o_id := Some 3, order_number := ''ORD-000003''\<rparr>)))
   \<and> map (\<lambda>pid. map_option stock (products (snd (create_order_post 7 address shop)) pid)) [1, 2] =
       [Some (5 - 2), Some (2 - 1)]
   \<and> products shop 2 = Some gadget \<and> stock gadget < 3
   \<and> cart_item_save \<lparr>ci_id = None, ci_cart = 7, ci_product = 2, ci_quantity = 3\<rparr> shop =
       (Inl ValueError, shop)"
proof -
  let ?reqs = "[AddToCart 7 \<lparr>a_product_id = Some 1, a_quantity = Some 3\<rparr>,
                PatchCartItem 7 2 (Some 2), CreateOrder 7 address]"
  let ?self = "\<lparr>ci_id = None, ci_cart = 7, ci_product = 2, ci_quantity = 3\<rparr>"
  let ?resp = "Response 201 (OrderBody (fresh_order\<lparr>o_id := Some 3, order_number := ''ORD-000003''\<rparr>))"
  have r1: "map (\<lambda>pid. map_option stock (products (run ?reqs shop) pid)) [1, 2] = [Some 0, Some 0]"
    by code_simp
  have r2: "fst (create_order_post 7 address shop) = Inr ?resp" by code_simp
  have r3: "map (\<lambda>pid. map_option stock (products (snd (create_order_post 7 address shop)) pid)) [1, 2] =
       [Some (5 - 2), Some (2 - 1)]" by code_simp
  have p: "products shop (ci_product ?self) = Some gadget" "stock gadget < ci_quantity ?self"
    by (simp_all add: shop_def gadget_def)
  note t = stock_never_negative [of shop ?reqs 7 address ?resp
      "snd (create_order_post 7 address shop)" ?self gadget]
  from t shop_constraints shop_stock have n: "stock_nonneg (run ?reqs shop)" by blast
  from t p have s: "cart_item_save ?self shop = (Inl ValueError, shop)" by blast
  from shop_constraints shop_stock n r1 r2 r3 p s show ?thesis by simp
qed


end
